theory Spec2Isabelle
  imports Complex_Main "HOL-Library.Sublist" "HOL-Library.AList"
begin

section \<open>Strings as Python sees them\<close>

text \<open>
  The chatbot of \<^verbatim>\<open>src/ChatBot/chatbot.py\<close> works on Python \<^verbatim>\<open>str\<close> values. They
  are modelled as \<^typ>\<open>string\<close>: an ASCII character is itself, and the few characters
  beyond ASCII that the source writes (the rupee sign, the emoji of the reply templates)
  are their UTF-8 bytes. Case mapping and the character classes \<^verbatim>\<open>\d\<close>, \<^verbatim>\<open>\s\<close>,
  \<^verbatim>\<open>\w\<close> and \<^verbatim>\<open>[a-zA-Z]\<close> are the ASCII ones; bytes from 128 on are in no class and
  have no case. The model is therefore exact on ASCII text with rupee signs; what
  Python's Unicode tables add beyond ASCII (further digits and blanks, letters whose
  case folding is an ASCII letter) is not modelled.
\<close>

definition ascii_upper :: string where
  "ascii_upper = ''ABCDEFGHIJKLMNOPQRSTUVWXYZ''"

definition ascii_lower :: string where
  "ascii_lower = ''abcdefghijklmnopqrstuvwxyz''"

definition ascii_digits :: string where
  "ascii_digits = ''0123456789''"

definition is_digit :: "char \<Rightarrow> bool" where
  "is_digit c = (c \<in> set ascii_digits)"

definition is_alpha :: "char \<Rightarrow> bool" where
  "is_alpha c = (c \<in> set ascii_lower \<or> c \<in> set ascii_upper)"

text \<open>\<^verbatim>\<open>\s\<close> and \<^verbatim>\<open>str.strip()\<close>: tab, LF, VT, FF, CR, the separators 0x1C..0x1F, space.\<close>

definition is_space :: "char \<Rightarrow> bool" where
  "is_space c = (c \<in> set [CHR 0x09, CHR 0x0A, CHR 0x0B, CHR 0x0C, CHR 0x0D,
                            CHR 0x1C, CHR 0x1D, CHR 0x1E, CHR 0x1F, CHR 0x20])"

definition is_word :: "char \<Rightarrow> bool" where
  "is_word c = (is_alpha c \<or> is_digit c \<or> c = CHR ''_'')"

fun translate :: "string \<Rightarrow> string \<Rightarrow> char \<Rightarrow> char" where
  "translate [] _ c = c"
| "translate _ [] c = c"
| "translate (a # as) (b # bs) c = (if c = a then b else translate as bs c)"

definition lower_char :: "char \<Rightarrow> char" where
  "lower_char = translate ascii_upper ascii_lower"

definition upper_char :: "char \<Rightarrow> char" where
  "upper_char = translate ascii_lower ascii_upper"

text \<open>\<^verbatim>\<open>str.lower()\<close>\<close>

definition lower :: "string \<Rightarrow> string" where
  "lower s = map lower_char s"

text \<open>\<^verbatim>\<open>str.capitalize()\<close>: first character upper-cased, the others lower-cased.\<close>

fun capitalize :: "string \<Rightarrow> string" where
  "capitalize [] = []"
| "capitalize (c # cs) = upper_char c # lower cs"

text \<open>
  \<^verbatim>\<open>str.title()\<close>: a letter that follows a letter is lower-cased, any other letter is
  upper-cased. The flag says whether the previous character was a letter.
\<close>

fun title_from :: "bool \<Rightarrow> string \<Rightarrow> string" where
  "title_from _ [] = []"
| "title_from prev (c # cs) =
     (if is_alpha c then (if prev then lower_char c else upper_char c) # title_from True cs
      else c # title_from False cs)"

definition title :: "string \<Rightarrow> string" where
  "title s = title_from False s"

text \<open>\<^verbatim>\<open>str.strip()\<close>\<close>

definition strip :: "string \<Rightarrow> string" where
  "strip s = rev (dropWhile is_space (rev (dropWhile is_space s)))"

text \<open>\<^verbatim>\<open>needle in haystack\<close> on strings: \<open>needle\<close> occurs as a contiguous substring.\<close>

fun str_in :: "string \<Rightarrow> string \<Rightarrow> bool" where
  "str_in needle [] = (needle = [])"
| "str_in needle (c # cs) = (prefix needle (c # cs) \<or> str_in needle cs)"

text \<open>\<^verbatim>\<open>s.replace(",", "")\<close>\<close>

definition remove_commas :: "string \<Rightarrow> string" where
  "remove_commas s = filter (\<lambda>c. c \<noteq> CHR '','') s"

section \<open>Regular expressions with Python's backtracking order\<close>

text \<open>
  The patterns of the source use literals, character classes, grouping, alternation,
  the greedy quantifiers \<^verbatim>\<open>?\<close>, \<^verbatim>\<open>*\<close>, \<^verbatim>\<open>+\<close>, capture groups and one
  \<^verbatim>\<open>^\<close>. All but one carry the flag \<^verbatim>\<open>(?i)\<close>; a literal under that flag is
  \<open>ICh\<close>, a literal without it is \<open>Ch\<close>.
\<close>

datatype atom =
    Ch char          \<comment> \<open>a literal character\<close>
  | ICh char         \<comment> \<open>a literal character under \<^verbatim>\<open>(?i)\<close>\<close>
  | Digit            \<comment> \<open>\<^verbatim>\<open>\d\<close>\<close>
  | Space            \<comment> \<open>\<^verbatim>\<open>\s\<close>\<close>
  | Word             \<comment> \<open>\<^verbatim>\<open>\w\<close>\<close>
  | Alpha            \<comment> \<open>\<^verbatim>\<open>[a-zA-Z]\<close>\<close>
  | AlphaSpace       \<comment> \<open>\<^verbatim>\<open>[a-zA-Z\s]\<close>\<close>

fun atom_ok :: "atom \<Rightarrow> char \<Rightarrow> bool" where
  "atom_ok (Ch a) c = (c = a)"
| "atom_ok (ICh a) c = (lower_char c = lower_char a)"
| "atom_ok Digit c = is_digit c"
| "atom_ok Space c = is_space c"
| "atom_ok Word c = is_word c"
| "atom_ok Alpha c = is_alpha c"
| "atom_ok AlphaSpace c = (is_alpha c \<or> is_space c)"

datatype regex =
    Eps
  | Bos                  \<comment> \<open>\<^verbatim>\<open>^\<close>: the start of the text\<close>
  | Atom atom
  | Seq regex regex
  | Alt regex regex      \<comment> \<open>\<^verbatim>\<open>a|b\<close>: \<open>a\<close> is tried first\<close>
  | Opt regex            \<comment> \<open>\<^verbatim>\<open>a?\<close>, greedy\<close>
  | Star regex           \<comment> \<open>\<^verbatim>\<open>a*\<close>, greedy\<close>
  | Group regex          \<comment> \<open>\<^verbatim>\<open>(a)\<close>, capturing\<close>

text \<open>
  A matcher state is the list of groups captured so far and the text still to read.
  \<open>rmatch n r st\<close> lists every state in which a match of \<open>r\<close> begun in \<open>st\<close> can
  end, in the order in which a backtracking matcher tries them: the head is the match
  Python reports. \<open>n\<close> is the length of the whole text, by which \<open>Bos\<close> knows the
  start. An iteration of \<open>Star\<close> that reads nothing ends the repetition.
\<close>

type_synonym mstate = "string list \<times> string"

fun rmatch :: "nat \<Rightarrow> regex \<Rightarrow> mstate \<Rightarrow> mstate list" where
  "rmatch n Eps st = [st]"
| "rmatch n Bos st = (if length (snd st) = n then [st] else [])"
| "rmatch n (Atom a) st =
     (case snd st of [] \<Rightarrow> [] | c # cs \<Rightarrow> if atom_ok a c then [(fst st, cs)] else [])"
| "rmatch n (Seq r1 r2) st = concat (map (rmatch n r2) (rmatch n r1 st))"
| "rmatch n (Alt r1 r2) st = rmatch n r1 st @ rmatch n r2 st"
| "rmatch n (Opt r) st = rmatch n r st @ [st]"
| "rmatch n (Star r) st =
     concat (map (\<lambda>st'. if length (snd st') < length (snd st)
                          then rmatch n (Star r) st' else [])
                 (rmatch n r st)) @ [st]"
| "rmatch n (Group r) st =
     map (\<lambda>st'. (fst st' @ [take (length (snd st) - length (snd st')) (snd st)], snd st'))
         (rmatch n r st)"

text \<open>The match that starts exactly at the head of \<open>s\<close>, if there is one.\<close>

definition match_here :: "regex \<Rightarrow> nat \<Rightarrow> string \<Rightarrow> mstate option" where
  "match_here r n s = (case rmatch n r ([], s) of [] \<Rightarrow> None | m # _ \<Rightarrow> Some m)"

text \<open>The leftmost match in \<open>s\<close>, a suffix of a text of length \<open>n\<close>.\<close>

fun search_from :: "regex \<Rightarrow> nat \<Rightarrow> string \<Rightarrow> mstate option" where
  "search_from r n [] = match_here r n []"
| "search_from r n (c # cs) =
     (case match_here r n (c # cs) of Some m \<Rightarrow> Some m | None \<Rightarrow> search_from r n cs)"

text \<open>
  \<^verbatim>\<open>re.search(pattern, text)\<close>: \<open>None\<close>, or the captured groups of the leftmost match
  (and the text after it).
\<close>

definition re_search :: "regex \<Rightarrow> string \<Rightarrow> mstate option" where
  "re_search r s = search_from r (length s) s"

text \<open>
  \<^verbatim>\<open>re.finditer(pattern, text)\<close>: the matches from left to right, each search starting
  where the previous match ended. After a match that read nothing at the head of the
  remaining text the scan moves one character on.
\<close>

fun finditer_from :: "regex \<Rightarrow> nat \<Rightarrow> string \<Rightarrow> string list list" where
  "finditer_from r n [] = (case match_here r n [] of None \<Rightarrow> [] | Some m \<Rightarrow> [fst m])"
| "finditer_from r n (c # cs) =
     (case search_from r n (c # cs) of
        None \<Rightarrow> []
      | Some m \<Rightarrow>
          fst m # (if length (snd m) < length (c # cs) then finditer_from r n (snd m)
                   else finditer_from r n cs))"

definition re_finditer :: "regex \<Rightarrow> string \<Rightarrow> string list list" where
  "re_finditer r s = finditer_from r (length s) s"

text \<open>\<^verbatim>\<open>match.group(k)\<close> for a group that took part in the match.\<close>

definition group :: "string list \<Rightarrow> nat \<Rightarrow> string" where
  "group gs k = gs ! (k - 1)"

subsection \<open>Building patterns\<close>

definition Plus :: "regex \<Rightarrow> regex" where
  "Plus r = Seq r (Star r)"

fun seqs :: "regex list \<Rightarrow> regex" where
  "seqs [] = Eps"
| "seqs [r] = r"
| "seqs (r # rs) = Seq r (seqs rs)"

fun alts :: "regex list \<Rightarrow> regex" where
  "alts [] = Eps"
| "alts [r] = r"
| "alts (r # rs) = Alt r (alts rs)"

text \<open>A literal under \<^verbatim>\<open>(?i)\<close>, and one without the flag.\<close>

definition ilit :: "string \<Rightarrow> regex" where
  "ilit s = seqs (map (\<lambda>c. Atom (ICh c)) s)"

definition lit :: "string \<Rightarrow> regex" where
  "lit s = seqs (map (\<lambda>c. Atom (Ch c)) s)"

section \<open>The patterns of the chatbot\<close>

text \<open>The rupee sign U+20B9, in UTF-8.\<close>

definition rupee :: string where
  "rupee = [CHR 0xE2, CHR 0x82, CHR 0xB9]"

text \<open>\<^verbatim>\<open>\s+\<close> and \<^verbatim>\<open>\s*\<close>\<close>

definition ws1 :: regex where
  "ws1 = Plus (Atom Space)"

definition ws0 :: regex where
  "ws0 = Star (Atom Space)"

text \<open>\<^verbatim>\<open>(?:rs\.?|<rupee sign>)?\<close>\<close>

definition currency :: regex where
  "currency = Opt (Alt (Seq (ilit ''rs'') (Opt (Atom (ICh CHR ''.'')))) (ilit rupee))"

text \<open>\<^verbatim>\<open>\d+(?:,\d+)*(?:\.\d+)?\<close>\<close>

definition number :: regex where
  "number = seqs [Plus (Atom Digit),
                  Star (Seq (Atom (ICh CHR '','')) (Plus (Atom Digit))),
                  Opt (Seq (Atom (ICh CHR ''.'')) (Plus (Atom Digit)))]"

text \<open>
  \<^verbatim>\<open>(?i)(?:call you|name you|rename you|your name is|you are|you\'re) ([a-zA-Z]+)\<close>
\<close>

definition rename_pattern :: regex where
  "rename_pattern =
     seqs [alts [ilit ''call you'', ilit ''name you'', ilit ''rename you'',
                 ilit ''your name is'', ilit ''you are'', ilit ''you're''],
           Atom (ICh CHR '' ''), Group (Plus (Atom Alpha))]"

text \<open>
  The questions about the bot's own name, in the order of the source list:
  \<^verbatim>\<open>(?i)(?:what(?:\'s|\s+is)\s+your\s+name)\<close>, \<^verbatim>\<open>(?i)(?:who\s+are\s+you)\<close>,
  \<^verbatim>\<open>(?i)(?:introduce\s+yourself)\<close>, \<^verbatim>\<open>(?i)(?:your\s+name)\<close>,
  \<^verbatim>\<open>(?i)(?:call\s+you)\<close>.
\<close>

definition bot_name_patterns :: "regex list" where
  "bot_name_patterns =
     [seqs [ilit ''what'', Alt (ilit [CHR 0x27, CHR ''s'']) (Seq ws1 (ilit ''is'')), ws1,
            ilit ''your'', ws1, ilit ''name''],
      seqs [ilit ''who'', ws1, ilit ''are'', ws1, ilit ''you''],
      seqs [ilit ''introduce'', ws1, ilit ''yourself''],
      seqs [ilit ''your'', ws1, ilit ''name''],
      seqs [ilit ''call'', ws1, ilit ''you'']]"

text \<open>
  \<^verbatim>\<open>(?i)(?:save|saving|savings|goal)\s+(?:rs\.?|<rupee sign>)?\s*(\d+(?:,\d+)*(?:\.\d+)?)\<close>
  and
  \<^verbatim>\<open>(?i)(?:want to|wanna|going to|plan to)\s+save\s+(?:rs\.?|<rupee sign>)?\s*(\d+(?:,\d+)*(?:\.\d+)?)\<close>
\<close>

definition savings_patterns :: "regex list" where
  "savings_patterns =
     [seqs [alts [ilit ''save'', ilit ''saving'', ilit ''savings'', ilit ''goal''],
            ws1, currency, ws0, Group number],
      seqs [alts [ilit ''want to'', ilit ''wanna'', ilit ''going to'', ilit ''plan to''],
            ws1, ilit ''save'', ws1, currency, ws0, Group number]]"

text \<open>
  \<^verbatim>\<open>(?i)(?:income|earn|salary|make|making)(?:\s+is|\s+of)?\s+(?:rs\.?|<rupee sign>)?\s*(\d+(?:,\d+)*(?:\.\d+)?)\<close>
\<close>

definition income_pattern :: regex where
  "income_pattern =
     seqs [alts [ilit ''income'', ilit ''earn'', ilit ''salary'', ilit ''make'', ilit ''making''],
           Opt (Alt (Seq ws1 (ilit ''is'')) (Seq ws1 (ilit ''of''))),
           ws1, currency, ws0, Group number]"

text \<open>
  \<^verbatim>\<open>(?i)(?:spend|spent|spending|pay|paying|paid|expense|expenses|cost|costs)\s+(?:rs\.?|<rupee sign>)?\s*(\d+(?:,\d+)*(?:\.\d+)?)\s+(?:on|for|in)\s+([a-zA-Z\s]+)\<close>
\<close>

definition expense_pattern :: regex where
  "expense_pattern =
     seqs [alts [ilit ''spend'', ilit ''spent'', ilit ''spending'', ilit ''pay'', ilit ''paying'',
                 ilit ''paid'', ilit ''expense'', ilit ''expenses'', ilit ''cost'', ilit ''costs''],
           ws1, currency, ws0, Group number,
           ws1, alts [ilit ''on'', ilit ''for'', ilit ''in''], ws1,
           Group (Plus (Atom AlphaSpace))]"

text \<open>
  The patterns for the user's name, in the order of the source list:
  \<^verbatim>\<open>(?i)(?:my name is|I am|I\'m) ([A-Za-z]+)\<close>, \<^verbatim>\<open>(?i)(?:call me) ([A-Za-z]+)\<close>,
  \<^verbatim>\<open>(?i)^(?:I\'m|I am) ([A-Za-z]+)\<close>.
\<close>

definition user_name_patterns :: "regex list" where
  "user_name_patterns =
     [seqs [alts [ilit ''my name is'', ilit ''I am'', ilit ''I'm''],
            Atom (ICh CHR '' ''), Group (Plus (Atom Alpha))],
      seqs [ilit ''call me'', Atom (ICh CHR '' ''), Group (Plus (Atom Alpha))],
      seqs [Bos, alts [ilit ''I'm'', ilit ''I am''],
            Atom (ICh CHR '' ''), Group (Plus (Atom Alpha))]]"

text \<open>\<^verbatim>\<open>my name is (\w+)\<close> of \<^verbatim>\<open>process_input\<close>, without \<^verbatim>\<open>(?i)\<close>.\<close>

definition my_name_is_pattern :: regex where
  "my_name_is_pattern = seqs [lit ''my name is '', Group (Plus (Atom Word))]"

section \<open>Numbers\<close>

text \<open>
  Python's \<^verbatim>\<open>float\<close> values are modelled by the rationals: the value of a decimal
  numeral is exact, and so are sums, differences and quotients. Rounding to binary64
  and the overflow of very long numerals to infinity are outside the model.
\<close>

datatype py_error = ValueError | KeyError | ZeroDivisionError

definition digit_val :: "char \<Rightarrow> int" where
  "digit_val c = of_char c - 48"

definition digits_value :: "string \<Rightarrow> int" where
  "digits_value s = foldl (\<lambda>a c. 10 * a + digit_val c) 0 s"

text \<open>
  \<^verbatim>\<open>float(s)\<close> for the spellings the patterns can capture: digits, then optionally a
  point and more digits. \<open>None\<close> stands for \<^verbatim>\<open>ValueError\<close>. (Python accepts further
  spellings, such as a sign, an exponent or surrounding blanks; \<open>number\<close> captures none
  of them.)
\<close>

definition py_float :: "string \<Rightarrow> rat option" where
  "py_float s =
     (let ip = takeWhile is_digit s in
      if ip = [] then None
      else case dropWhile is_digit s of
             [] \<Rightarrow> Some (of_int (digits_value ip))
           | c # fp \<Rightarrow>
               if c = CHR ''.'' \<and> fp \<noteq> [] \<and> list_all is_digit fp
               then Some (of_int (digits_value ip) + of_int (digits_value fp) / 10 ^ length fp)
               else None)"

text \<open>The decimal digits of an integer that is not negative.\<close>

function dec_digits :: "int \<Rightarrow> string" where
  "dec_digits n =
     (if n < 10 then [ascii_digits ! nat n]
      else dec_digits (n div 10) @ [ascii_digits ! nat (n mod 10)])"
  by pat_completeness auto
termination
  by (relation "measure nat") auto

text \<open>A comma before every group of three digits, counted from the right.\<close>

fun commas_rev :: "string \<Rightarrow> string" where
  "commas_rev (a # b # c # d # ds) = a # b # c # CHR '','' # commas_rev (d # ds)"
| "commas_rev ds = ds"

definition with_commas :: "string \<Rightarrow> string" where
  "with_commas ds = rev (commas_rev (rev ds))"

text \<open>Rounding to the nearest integer, a tie going to the even one.\<close>

definition round_half_even :: "rat \<Rightarrow> int" where
  "round_half_even x =
     (let f = \<lfloor>x\<rfloor>; d = x - of_int f in
      if d < 1 / 2 then f else if 1 / 2 < d then f + 1 else if even f then f else f + 1)"

text \<open>\<^verbatim>\<open>f"{x:,.0f}"\<close>\<close>

definition fmt_comma_0f :: "rat \<Rightarrow> string" where
  "fmt_comma_0f x =
     (if x < 0 then ''-'' else []) @ with_commas (dec_digits (round_half_even \<bar>x\<bar>))"

text \<open>\<^verbatim>\<open>f"{x:.1f}"\<close>\<close>

definition fmt_1f :: "rat \<Rightarrow> string" where
  "fmt_1f x =
     (let n = round_half_even (\<bar>x\<bar> * 10) in
      (if x < 0 then ''-'' else []) @ dec_digits (n div 10) @ ''.'' @ dec_digits (n mod 10))"

section \<open>The reply templates\<close>

text \<open>
  A template of \<^verbatim>\<open>str.format\<close> is a list of pieces: literal text and named
  placeholders. Formatting replaces each placeholder by the value bound to its name and
  raises \<^verbatim>\<open>KeyError\<close> for a name that is not bound.
\<close>

datatype field =
    F_income | F_amount | F_category | F_total_expenses | F_goal | F_remaining | F_advice
  | F_percent | F_recommended | F_status | F_savings_goal

datatype piece = Txt string | Hole field

type_synonym template = "piece list"

fun format :: "template \<Rightarrow> (field \<times> string) list \<Rightarrow> py_error + string" where
  "format [] args = Inr []"
| "format (Txt t # ps) args =
     (case format ps args of Inl e \<Rightarrow> Inl e | Inr r \<Rightarrow> Inr (t @ r))"
| "format (Hole f # ps) args =
     (case map_of args f of
        None \<Rightarrow> Inl KeyError
      | Some v \<Rightarrow> (case format ps args of Inl e \<Rightarrow> Inl e | Inr r \<Rightarrow> Inr (v @ r)))"

text \<open>The characters beyond ASCII that the templates use, in UTF-8.\<close>

definition emoji_check :: string where
  "emoji_check = [CHR 0xE2, CHR 0x9C, CHR 0x85]"

definition emoji_memo :: string where
  "emoji_memo = [CHR 0xF0, CHR 0x9F, CHR 0x93, CHR 0x9D]"

definition emoji_target :: string where
  "emoji_target = [CHR 0xF0, CHR 0x9F, CHR 0x8E, CHR 0xAF]"

definition emoji_chart :: string where
  "emoji_chart = [CHR 0xF0, CHR 0x9F, CHR 0x93, CHR 0x8A]"

definition emoji_money :: string where
  "emoji_money = [CHR 0xF0, CHR 0x9F, CHR 0x92, CHR 0xB0]"

definition emoji_smile :: string where
  "emoji_smile = [CHR 0xF0, CHR 0x9F, CHR 0x98, CHR 0x8A]"

definition emoji_robot :: string where
  "emoji_robot = [CHR 0xF0, CHR 0x9F, CHR 0xA4, CHR 0x96]"

definition emoji_wave :: string where
  "emoji_wave = [CHR 0xF0, CHR 0x9F, CHR 0x91, CHR 0x8B]"

definition bullet :: string where
  "bullet = [CHR 0xE2, CHR 0x80, CHR 0xA2]"

definition newline :: string where
  "newline = [CHR 0x0A]"

text \<open>\<^verbatim>\<open>self.advice_templates\<close>\<close>

definition advice_templates :: "template list" where
  "advice_templates =
     [[Txt ''Based on your expenses, you might want to consider reducing your '',
       Hole F_category, Txt '' spending by '', Hole F_percent, Txt ''% to save more money.''],
      [Txt ''I notice that you're spending '', Hole F_amount, Txt '' on '', Hole F_category,
       Txt ''. That's about '', Hole F_percent,
       Txt ''% of your income. The recommended percentage is around '', Hole F_recommended,
       Txt ''%.''],
      [Txt ''Looking at your financial data, I suggest focusing on saving more in the '',
       Hole F_category, Txt '' category. Try to aim for '', Hole F_goal, Txt '' per month.''],
      [Txt ''Your '', Hole F_category, Txt '' expenses seem '', Hole F_status,
       Txt ''. Most financial experts recommend keeping it under '', Hole F_recommended,
       Txt ''% of your income.''],
      [Txt ''To reach your savings goal of '', Hole F_savings_goal,
       Txt '', consider cutting back on '', Hole F_category, Txt '' by about '', Hole F_amount,
       Txt '' per month.''],
      [Txt ''Great job on managing your '', Hole F_category,
       Txt ''! You're spending less than the recommended amount.''],
      [Txt ''To improve your financial health, try the 50/30/20 rule: 50% for needs, 30% for wants, and 20% for savings.''],
      [Txt ''Looking at your spending, I recommend creating an emergency fund of at least 3-6 months of expenses.''],
      [Txt ''Consider automating your savings by setting up automatic transfers to your savings account each month.'']]"

text \<open>The entries of \<^verbatim>\<open>self.response_templates\<close> that the local responder reads.\<close>

definition income_added :: "template list" where
  "income_added =
     [[Txt emoji_check, Txt '' Great! I've recorded your monthly income as '', Txt rupee,
       Hole F_income, Txt ''.''],
      [Txt ''Thanks! I've noted your income as '', Txt rupee, Hole F_income,
       Txt '' per month.'']]"

definition expense_added :: "template list" where
  "expense_added =
     [[Txt emoji_memo, Txt '' Got it! I've added '', Txt rupee, Hole F_amount, Txt '' for '',
       Hole F_category, Txt '' to your expenses.''],
      [Txt ''Added: '', Txt rupee, Hole F_amount, Txt '' for '', Hole F_category,
       Txt ''. Your total expenses are now '', Txt rupee, Hole F_total_expenses, Txt ''.'']]"

definition savings_goal_added :: "template list" where
  "savings_goal_added =
     [[Txt emoji_target, Txt '' Excellent! Your savings goal is set to '', Txt rupee,
       Hole F_goal, Txt '' per month.''],
      [Txt ''I've set your monthly savings goal to '', Txt rupee, Hole F_goal,
       Txt ''. Let's work towards achieving it!'']]"

definition budget_analysis :: "template list" where
  "budget_analysis =
     [[Txt emoji_chart, Txt '' Based on your information:'', Txt newline,
       Txt bullet, Txt '' Income: '', Txt rupee, Hole F_income, Txt newline,
       Txt bullet, Txt '' Total Expenses: '', Txt rupee, Hole F_total_expenses, Txt newline,
       Txt bullet, Txt '' Remaining: '', Txt rupee, Hole F_remaining, Txt newline,
       Txt newline, Hole F_advice],
      [Txt emoji_money, Txt '' Here's your financial snapshot:'', Txt newline,
       Txt bullet, Txt '' Monthly Income: '', Txt rupee, Hole F_income, Txt newline,
       Txt bullet, Txt '' Total Expenses: '', Txt rupee, Hole F_total_expenses, Txt newline,
       Txt bullet, Txt '' Available for Savings: '', Txt rupee, Hole F_remaining, Txt newline,
       Txt newline, Hole F_advice]]"

definition general :: "string list" where
  "general =
     [''I'm here to help with your budget! You can tell me about your income, expenses, or savings goals.'',
      ''Need help with something specific? You can ask me about budget analysis, expense tracking, or savings advice.'',
      ''Feel free to share more details about your financial situation so I can provide better advice.'',
      ''Is there anything specific about your finances you'd like to discuss today?'']"

text \<open>The fixed replies about the bot's own name, of the local responder and of the remote path.\<close>

definition local_rename_reply :: string where
  "local_rename_reply =
     ''I appreciate the nickname suggestion, but I prefer to go by Ankit Kumar 12312618 - that's my name! ''
     @ emoji_smile @
     '' I'm your Budgeting & Expense Estimation Planner here to help with your finances. What can I assist you with today?''"

definition local_identity_reply :: string where
  "local_identity_reply =
     ''I'm Ankit Kumar 12312618 - your Budgeting & Expense Estimation Planner! '' @ emoji_robot @
     '' I'm here to help with your finances and travel planning. What can I help you with today?''"

definition remote_rename_reply :: string where
  "remote_rename_reply =
     ''I appreciate the nickname suggestion, but I prefer to go by FIN - that's my name! ''
     @ emoji_smile @
     '' I'm your Budgeting & Expense Estimation Planner here to help with your finances. What can I assist you with today?''"

definition remote_identity_reply :: string where
  "remote_identity_reply =
     ''I'm FIN - your Budgeting & Expense Estimation Planner! '' @ emoji_robot @
     '' I'm here to help with your finances and travel planning. What can I help you with today?''"

definition generic_advice :: string where
  "generic_advice = ''Consider tracking your expenses by category to get more specific advice.''"

text \<open>The replies of \<^verbatim>\<open>handle_greeting\<close>.\<close>

definition greeting_responses :: "string list" where
  "greeting_responses =
     [emoji_wave @ '' Hi there! I'm your AI financial buddy. Want to know what I can do? Just ask 'what can you do?' Or we can start budgeting - what's your name?'',
      ''Hello! I'm here to help with your finances. Ask me 'what can you do?' to learn more, or we can get started - what's your name?'',
      ''Hey! '' @ emoji_smile @ '' I'm your personal finance assistant. Want to see my capabilities? Ask 'what can you do?' Or let's begin - what's your name?'',
      ''Hi! Ready to manage your finances better? Ask me 'what can you do?' to learn more, or we can start right away - what's your name?'']"

definition greeting_filler :: string where
  "greeting_filler = ''I'm here to help! Just let me know what you need.''"

section \<open>The chatbot's state\<close>

datatype role = User | Assistant

text \<open>
  The fields of \<^verbatim>\<open>SmartBudgetAIChatbot\<close> that its methods read and write.
  \<^verbatim>\<open>user_data\<close> is a dictionary with the two keys \<^verbatim>\<open>"income"\<close> and
  \<^verbatim>\<open>"savings_goal"\<close>, each present or not. \<^verbatim>\<open>expenses\<close> is a dictionary whose
  order of insertion matters (\<^verbatim>\<open>max\<close> returns the first largest item), hence an
  association list. \<open>model_available\<close> is \<^verbatim>\<open>self.model and self.chat\<close>, fixed by the
  constructor. A time is a number of microseconds.
\<close>

record chatbot =
  model_available :: bool
  income :: "rat option"
  savings_goal :: "rat option"
  expenses :: "(string \<times> rat) list"
  conversation_history :: "(role \<times> string) list"
  user_name :: "string option"
  last_greeting_time :: "int option"

text \<open>The state the constructor leaves.\<close>

definition init :: "bool \<Rightarrow> chatbot" where
  "init m = \<lparr>model_available = m, income = None, savings_goal = None, expenses = [],
             conversation_history = [], user_name = None, last_greeting_time = None\<rparr>"

text \<open>\<^verbatim>\<open>d[k] = v\<close> on a dictionary: an old key keeps its place, a new key goes last.\<close>

definition dict_set :: "(string \<times> rat) list \<Rightarrow> string \<Rightarrow> rat \<Rightarrow> (string \<times> rat) list" where
  "dict_set d k v = AList.update k v d"

text \<open>\<^verbatim>\<open>d.get(k)\<close>\<close>

definition dict_get :: "(string \<times> rat) list \<Rightarrow> string \<Rightarrow> rat option" where
  "dict_get d k = map_of d k"

text \<open>\<^verbatim>\<open>sum(d.values())\<close>\<close>

definition sum_values :: "(string \<times> rat) list \<Rightarrow> rat" where
  "sum_values d = sum_list (map snd d)"

text \<open>
  \<^verbatim>\<open>max(d.items(), key=lambda x: x[1])\<close> on a dictionary that is not empty: a later
  item replaces the best one so far only when its value is strictly larger.
\<close>

fun max_item :: "(string \<times> rat) \<Rightarrow> (string \<times> rat) list \<Rightarrow> (string \<times> rat)" where
  "max_item best [] = best"
| "max_item best (x # xs) = max_item (if snd best < snd x then x else best) xs"

text \<open>
  \<^verbatim>\<open>random.choice(xs)\<close> on a list that is not empty; \<open>r\<close> is the number the
  generator draws.
\<close>

definition random_choice :: "nat \<Rightarrow> 'a list \<Rightarrow> 'a" where
  "random_choice r xs = xs ! (r mod length xs)"

text \<open>\<^verbatim>\<open>not self.user_name\<close>: the name is \<^verbatim>\<open>None\<close> or empty.\<close>

definition no_name :: "chatbot \<Rightarrow> bool" where
  "no_name s = (user_name s = None \<or> user_name s = Some [])"

section \<open>\<^verbatim>\<open>extract_financial_info\<close>\<close>

text \<open>The amount a match captured in group \<open>k\<close>: \<^verbatim>\<open>float(m.group(k).replace(",", ""))\<close>.\<close>

definition amount_of :: "string list \<Rightarrow> nat \<Rightarrow> rat option" where
  "amount_of gs k = py_float (remove_commas (group gs k))"

text \<open>\<^verbatim>\<open>m.group(2).strip().lower()\<close>\<close>

definition category_of :: "string list \<Rightarrow> string" where
  "category_of gs = lower (strip (group gs 2))"

definition extract_income :: "string \<Rightarrow> chatbot \<Rightarrow> chatbot" where
  "extract_income text s =
     (case re_search income_pattern text of
        None \<Rightarrow> s
      | Some m \<Rightarrow> (case amount_of (fst m) 1 of
                     None \<Rightarrow> s
                   | Some v \<Rightarrow> s\<lparr>income := Some v\<rparr>))"

text \<open>The body of the loop over the expense matches.\<close>

definition record_expense :: "string list \<Rightarrow> (string \<times> rat) list \<Rightarrow> (string \<times> rat) list" where
  "record_expense gs d =
     (case amount_of gs 1 of
        None \<Rightarrow> d
      | Some amount \<Rightarrow> dict_set d (category_of gs) amount)"

definition extract_expenses :: "string \<Rightarrow> chatbot \<Rightarrow> chatbot" where
  "extract_expenses text s =
     s\<lparr>expenses := fold record_expense (re_finditer expense_pattern text) (expenses s)\<rparr>"

text \<open>The loop over the savings patterns: it stops at the first pattern whose amount parses.\<close>

fun extract_savings :: "regex list \<Rightarrow> string \<Rightarrow> chatbot \<Rightarrow> chatbot" where
  "extract_savings [] text s = s"
| "extract_savings (p # ps) text s =
     (case re_search p text of
        None \<Rightarrow> extract_savings ps text s
      | Some m \<Rightarrow> (case amount_of (fst m) 1 of
                     None \<Rightarrow> extract_savings ps text s
                   | Some v \<Rightarrow> s\<lparr>savings_goal := Some v\<rparr>))"

text \<open>The loop over the name patterns: it stops at the first pattern that matches.\<close>

fun first_name_match :: "regex list \<Rightarrow> string \<Rightarrow> string option" where
  "first_name_match [] text = None"
| "first_name_match (p # ps) text =
     (case re_search p text of
        None \<Rightarrow> first_name_match ps text
      | Some m \<Rightarrow> Some (capitalize (group (fst m) 1)))"

definition extract_name :: "string \<Rightarrow> chatbot \<Rightarrow> chatbot" where
  "extract_name text s =
     (if no_name s
      then (case first_name_match user_name_patterns text of
              None \<Rightarrow> s
            | Some name \<Rightarrow> s\<lparr>user_name := Some name\<rparr>)
      else s)"

definition extract_financial_info :: "string \<Rightarrow> chatbot \<Rightarrow> chatbot" where
  "extract_financial_info text s =
     extract_name text (extract_savings savings_patterns text
       (extract_expenses text (extract_income text s)))"

section \<open>\<^verbatim>\<open>handle_greeting\<close>\<close>

definition greetings :: "string list" where
  "greetings = [''hi'', ''hello'', ''hey'', ''hola'', ''greetings'']"

text \<open>\<^verbatim>\<open>(a - b).seconds\<close>: the seconds field of the normalised difference, from 0 to 86399.\<close>

definition timedelta_seconds :: "int \<Rightarrow> int \<Rightarrow> int" where
  "timedelta_seconds a b = ((a - b) div 1000000) mod 86400"

text \<open>\<open>now\<close> is what \<^verbatim>\<open>datetime.now()\<close> returns, \<open>r\<close> what the generator draws.\<close>

definition handle_greeting :: "int \<Rightarrow> nat \<Rightarrow> string \<Rightarrow> chatbot \<Rightarrow> string option \<times> chatbot" where
  "handle_greeting now r user_input s =
     (if list_ex (\<lambda>greeting. str_in greeting (lower user_input)) greetings
      then (if (case last_greeting_time s of
                  None \<Rightarrow> True
                | Some prev \<Rightarrow> 300 < timedelta_seconds now prev)
            then (Some (random_choice r greeting_responses), s\<lparr>last_greeting_time := Some now\<rparr>)
            else (Some greeting_filler, s))
      else (None, s))"

section \<open>\<^verbatim>\<open>generate_contextual_response\<close>\<close>

text \<open>
  A method returns its outcome, a reply or the exception it raises, together with the
  state it leaves. \<open>rnd i\<close> is what the generator draws at the \<open>i\<close>-th call of
  \<^verbatim>\<open>random.choice\<close> within the method.
\<close>

type_synonym outcome = "(py_error + string) \<times> chatbot"

text \<open>
  The rename test: the pattern matches and the captured word, lower-cased, is not one of
  the names the bot accepts.
\<close>

definition rename_attempt :: "string list \<Rightarrow> string \<Rightarrow> bool" where
  "rename_attempt accepted user_input =
     (case re_search rename_pattern user_input of
        None \<Rightarrow> False
      | Some m \<Rightarrow> lower (group (fst m) 1) \<notin> set accepted)"

definition identity_query :: "string \<Rightarrow> bool" where
  "identity_query user_input = list_ex (\<lambda>p. re_search p user_input \<noteq> None) bot_name_patterns"

text \<open>
  The loop over the savings patterns. \<open>None\<close>: the loop ended without returning. An
  amount that does not parse is the \<^verbatim>\<open>ValueError\<close> the loop swallows.
\<close>

fun savings_reply :: "regex list \<Rightarrow> (nat \<Rightarrow> nat) \<Rightarrow> string \<Rightarrow> chatbot \<Rightarrow> outcome option" where
  "savings_reply [] rnd user_input s = None"
| "savings_reply (p # ps) rnd user_input s =
     (case re_search p user_input of
        None \<Rightarrow> savings_reply ps rnd user_input s
      | Some m \<Rightarrow>
          (case amount_of (fst m) 1 of
             None \<Rightarrow> savings_reply ps rnd user_input s
           | Some goal \<Rightarrow>
               Some (format (random_choice (rnd 0) savings_goal_added)
                            [(F_goal, fmt_comma_0f goal)],
                     s\<lparr>savings_goal := Some goal\<rparr>)))"

definition income_reply :: "(nat \<Rightarrow> nat) \<Rightarrow> rat \<Rightarrow> py_error + string" where
  "income_reply rnd inc =
     format (random_choice (rnd 0) income_added) [(F_income, fmt_comma_0f inc)]"

text \<open>\<^verbatim>\<open>sum(self.expenses.values()) if self.expenses else 0\<close>\<close>

definition total_expenses :: "chatbot \<Rightarrow> rat" where
  "total_expenses s = (if expenses s \<noteq> [] then sum_values (expenses s) else 0)"

text \<open>The expense branch; the conversion of the amount is not guarded there.\<close>

definition expense_reply :: "(nat \<Rightarrow> nat) \<Rightarrow> string list \<Rightarrow> chatbot \<Rightarrow> py_error + string" where
  "expense_reply rnd gs s =
     (case amount_of gs 1 of
        None \<Rightarrow> Inl ValueError
      | Some amount \<Rightarrow>
          format (random_choice (rnd 0) expense_added)
                 [(F_amount, fmt_comma_0f amount), (F_category, category_of gs),
                  (F_total_expenses, fmt_comma_0f (total_expenses s))])"

definition analysis_keywords :: "string list" where
  "analysis_keywords = [''analyze'', ''analysis'', ''how am i doing'', ''budget'', ''review'',
                        ''overview'', ''summary'', ''status'']"

text \<open>
  The values bound into the advice template. \<open>hi\<close> is the item \<^verbatim>\<open>max\<close> returned,
  \<open>pct\<close> its share of the income in percent, \<open>inc\<close> the income.
\<close>

definition advice_args :: "chatbot \<Rightarrow> rat \<Rightarrow> string \<times> rat \<Rightarrow> rat \<Rightarrow> (field \<times> string) list" where
  "advice_args s inc hi pct =
     [(F_category, fst hi),
      (F_amount, fmt_comma_0f (snd hi)),
      (F_percent, fmt_1f pct),
      (F_recommended, ''15-20''),
      (F_status, if 30 < pct then ''high'' else ''reasonable''),
      (F_goal, fmt_comma_0f (inc * (2 / 10))),
      (F_savings_goal,
         fmt_comma_0f (case savings_goal s of Some g \<Rightarrow> g | None \<Rightarrow> inc * (2 / 10)))]"

text \<open>
  The budget analysis for the income \<open>inc\<close>. With expenses on record the advice
  comes from a template drawn first and the reply template is the second draw; the
  division by an income of zero raises \<^verbatim>\<open>ZeroDivisionError\<close>, which the handler for
  \<^verbatim>\<open>(ValueError, TypeError)\<close> does not catch. Without expenses the advice is the fixed
  sentence and the reply template is the first draw.
\<close>

definition analysis_reply :: "(nat \<Rightarrow> nat) \<Rightarrow> rat \<Rightarrow> chatbot \<Rightarrow> py_error + string" where
  "analysis_reply rnd inc s =
     (let total = total_expenses s;
          remaining = inc - total;
          reply = (\<lambda>i advice.
            format (random_choice (rnd i) budget_analysis)
                   [(F_income, fmt_comma_0f inc), (F_total_expenses, fmt_comma_0f total),
                    (F_remaining, fmt_comma_0f remaining), (F_advice, advice)])
      in case expenses s of
           [] \<Rightarrow> reply 0 generic_advice
         | x # xs \<Rightarrow>
             (let highest_category = max_item x xs in
              if inc = 0 then Inl ZeroDivisionError
              else (let highest_percent = snd highest_category / inc * 100 in
                    case format (random_choice (rnd 0) advice_templates)
                                (advice_args s inc highest_category highest_percent) of
                      Inl e \<Rightarrow> Inl e
                    | Inr advice \<Rightarrow> reply 1 advice)))"

definition analysis_request :: "string \<Rightarrow> chatbot \<Rightarrow> bool" where
  "analysis_request user_input s =
     (list_ex (\<lambda>keyword. str_in keyword (lower user_input)) analysis_keywords
      \<and> income s \<noteq> None)"

definition general_reply :: "(nat \<Rightarrow> nat) \<Rightarrow> chatbot \<Rightarrow> string" where
  "general_reply rnd s =
     (if no_name s then random_choice (rnd 0) general
      else ''Hi '' @ the (user_name s) @ ''! '' @ random_choice (rnd 0) general)"

text \<open>The accepted names of the local responder.\<close>

definition local_names :: "string list" where
  "local_names = [''ankit'', ''kumar'', ''chatbot'', ''bot'', ''assistant'']"

definition generate_contextual_response :: "(nat \<Rightarrow> nat) \<Rightarrow> string \<Rightarrow> chatbot \<Rightarrow> outcome" where
  "generate_contextual_response rnd user_input s =
     (if rename_attempt local_names user_input then (Inr local_rename_reply, s)
      else if identity_query user_input then (Inr local_identity_reply, s)
      else case savings_reply savings_patterns rnd user_input s of
        Some out \<Rightarrow> out
      | None \<Rightarrow>
          if income s \<noteq> None \<and> length (conversation_history s) < 3
          then (income_reply rnd (the (income s)), s)
          else case re_search expense_pattern user_input of
            Some m \<Rightarrow> (expense_reply rnd (fst m) s, s)
          | None \<Rightarrow>
              if analysis_request user_input s
              then (analysis_reply rnd (the (income s)) s, s)
              else (Inr (general_reply rnd s), s))"

section \<open>\<^verbatim>\<open>get_ai_response\<close> and \<^verbatim>\<open>process_input\<close>\<close>

text \<open>\<^verbatim>\<open>self.conversation_history.append({"role": role, "content": content})\<close>\<close>

definition append_turn :: "role \<Rightarrow> string \<Rightarrow> chatbot \<Rightarrow> chatbot" where
  "append_turn r content s =
     s\<lparr>conversation_history := conversation_history s @ [(r, content)]\<rparr>"

text \<open>The reset of a history of more than 10 turns to its last 5.\<close>

definition prune_history :: "chatbot \<Rightarrow> chatbot" where
  "prune_history s =
     (if 10 < length (conversation_history s)
      then s\<lparr>conversation_history :=
               drop (length (conversation_history s) - 5) (conversation_history s)\<rparr>
      else s)"

text \<open>
  The local responder, followed by the assistant turn for its reply; an exception of the
  responder leaves the method before the turn is appended.
\<close>

definition fallback :: "(nat \<Rightarrow> nat) \<Rightarrow> string \<Rightarrow> chatbot \<Rightarrow> outcome" where
  "fallback rnd user_input s =
     (case generate_contextual_response rnd user_input s of
        (Inl e, s') \<Rightarrow> (Inl e, s')
      | (Inr fallback_response, s') \<Rightarrow>
          (Inr fallback_response, append_turn Assistant fallback_response s'))"

definition remote_names :: "string list" where
  "remote_names = [''fin'', ''chatbot'', ''bot'', ''assistant'']"

text \<open>
  \<open>remote\<close> is the outcome of the call to the remote model: \<open>Some\<close> text, or
  \<open>None\<close> when \<^verbatim>\<open>send_message\<close> or \<^verbatim>\<open>response.text\<close> raises. The prompt, the bank
  information and the conversation starter only feed that call, and nothing else in the
  guarded block raises (\<^verbatim>\<open>start_chat\<close> only builds a new session object). The first
  draw of the generator goes to the conversation starter, so the local responder in the
  handler sees the draws after it. The rename test and the identity test return before
  the history is touched.
\<close>

definition get_ai_response :: "string option \<Rightarrow> (nat \<Rightarrow> nat) \<Rightarrow> string \<Rightarrow> chatbot \<Rightarrow> outcome" where
  "get_ai_response remote rnd user_input s =
     (if model_available s
      then (if rename_attempt remote_names user_input then (Inr remote_rename_reply, s)
            else if identity_query user_input then (Inr remote_identity_reply, s)
            else (let s1 = prune_history (append_turn User user_input s) in
                  case remote of
                    Some text \<Rightarrow>
                      (Inr text, extract_financial_info user_input (append_turn Assistant text s1))
                  | None \<Rightarrow> fallback (\<lambda>i. rnd (Suc i)) user_input s1))
      else fallback rnd user_input s)"

definition process_input :: "string option \<Rightarrow> (nat \<Rightarrow> nat) \<Rightarrow> string \<Rightarrow> chatbot \<Rightarrow> outcome" where
  "process_input remote rnd user_input s =
     get_ai_response remote rnd user_input
       (if no_name s
        then (case re_search my_name_is_pattern (lower user_input) of
                None \<Rightarrow> s
              | Some m \<Rightarrow> s\<lparr>user_name := Some (title (group (fst m) 1))\<rparr>)
        else s)"

section \<open>What a pattern can read\<close>

text \<open>
  The words a pattern can read, as a set: the specification against which the
  backtracking matcher is checked below.
\<close>

inductive_set star :: "string set \<Rightarrow> string set" for A :: "string set" where
  star_nil: "[] \<in> star A"
| star_step: "u \<in> A \<Longrightarrow> v \<in> star A \<Longrightarrow> u @ v \<in> star A"

fun lang :: "regex \<Rightarrow> string set" where
  "lang Eps = {[]}"
| "lang Bos = {[]}"
| "lang (Atom a) = {[c] |c. atom_ok a c}"
| "lang (Seq r1 r2) = {u @ v |u v. u \<in> lang r1 \<and> v \<in> lang r2}"
| "lang (Alt r1 r2) = lang r1 \<union> lang r2"
| "lang (Opt r) = insert [] (lang r)"
| "lang (Star r) = star (lang r)"
| "lang (Group r) = lang r"

fun no_groups :: "regex \<Rightarrow> bool" where
  "no_groups (Group r) = False"
| "no_groups (Seq r1 r2) = (no_groups r1 \<and> no_groups r2)"
| "no_groups (Alt r1 r2) = (no_groups r1 \<and> no_groups r2)"
| "no_groups (Opt r) = no_groups r"
| "no_groups (Star r) = no_groups r"
| "no_groups r = True"

text \<open>
  A pattern is flat when it has no group or is one group around a pattern without
  groups; \<open>group_bodies\<close> lists the bodies of the groups of a sequence of flat patterns.
\<close>

fun ungroup :: "regex \<Rightarrow> regex" where
  "ungroup (Group r) = r"
| "ungroup r = r"

definition flat :: "regex \<Rightarrow> bool" where
  "flat r = (no_groups r \<or> no_groups (ungroup r))"

fun group_bodies :: "regex list \<Rightarrow> regex list" where
  "group_bodies [] = []"
| "group_bodies (r # rs) =
     (if no_groups r then group_bodies rs else ungroup r # group_bodies rs)"

section \<open>Example inputs\<close>

text \<open>A generator that draws the same number every time.\<close>

definition const_draws :: "nat \<Rightarrow> nat \<Rightarrow> nat" where
  "const_draws k i = k"

definition two_expenses_text :: string where
  "two_expenses_text = ''I spent 1,200 on Rent  (flat). I paid 300 for food''"

text \<open>Two expense phrases with nothing but letters and blanks between them.\<close>

definition joined_expenses_text :: string where
  "joined_expenses_text = ''I spend 500 on food and paid 300 for rent''"

definition rent_recorded :: chatbot where
  "rent_recorded = (init False)\<lparr>expenses := [(''rent'', 1000)]\<rparr>"

text \<open>A chatbot that greeted at time 0, and a time one day and 100 seconds later.\<close>

definition greeted_at_0 :: chatbot where
  "greeted_at_0 = (init False)\<lparr>last_greeting_time := Some 0\<rparr>"

definition a_day_later :: int where
  "a_day_later = 86500 * 1000000"

text \<open>Utterances for the local responder.\<close>

definition savings_expense_text :: string where
  "savings_expense_text = ''save 5 spend 5 on y''"

definition expense_text :: string where
  "expense_text = ''I spend 5000 on groceries''"





text \<open>The reply of the local responder to \<open>expense_text\<close> with the first template.\<close>

definition expense_ack :: string where
  "expense_ack = emoji_memo @ '' Got it! I've added '' @ rupee @
                 ''5,000 for groceries to your expenses.''"

section \<open>Sessions\<close>

text \<open>
  \<open>ask_times k u s\<close> sends the utterance \<open>u\<close> \<open>k\<close> times to a chatbot whose
  remote call fails; a state is reachable when calls of the methods lead to it from a
  state the constructor leaves.
\<close>

definition ok_text :: string where
  "ok_text = ''ok''"

fun ask_times :: "nat \<Rightarrow> string \<Rightarrow> chatbot \<Rightarrow> chatbot" where
  "ask_times 0 u s = s"
| "ask_times (Suc k) u s = ask_times k u (snd (get_ai_response None (const_draws 0) u s))"

inductive reachable :: "chatbot \<Rightarrow> bool" where
  at_start: "reachable (init m)"
| after_ask: "reachable s \<Longrightarrow> reachable (snd (get_ai_response remote rnd u s))"
| after_process_input: "reachable s \<Longrightarrow> reachable (snd (process_input remote rnd u s))"
| after_greeting: "reachable s \<Longrightarrow> reachable (snd (handle_greeting now r u s))"
| after_extraction: "reachable s \<Longrightarrow> reachable (extract_financial_info u s)"
| after_local_reply: "reachable s \<Longrightarrow> reachable (snd (generate_contextual_response rnd u s))"

text \<open>Utterances that state a name.\<close>

definition name_text :: string where
  "name_text = ''Hi, I'm bob''"

definition other_name_text :: string where
  "other_name_text = ''call me alice''"

text \<open>Utterances whose name \<^verbatim>\<open>process_input\<close> reads itself.\<close>

definition my_name_text :: string where
  "my_name_text = ''Hello, My Name Is carol_ann''"

definition two_names_text :: string where
  "two_names_text = ''I am Al. my name is bob_smith''"

section \<open>The matcher reads what the pattern describes\<close>

declare rmatch.simps(7) [simp del]

lemma rmatch_Star_iff:
  "st' \<in> set (rmatch n (Star r) st) \<longleftrightarrow>
     st' = st \<or> (\<exists>st1 \<in> set (rmatch n r st).
                  length (snd st1) < length (snd st) \<and> st' \<in> set (rmatch n (Star r) st1))"
  by (subst rmatch.simps(7)) (auto split: if_splits)

lemma rmatch_lang:
  "st' \<in> set (rmatch n r st) \<Longrightarrow> \<exists>w \<in> lang r. snd st = w @ snd st'"
proof (induction n r st arbitrary: st' rule: rmatch.induct)
  case (1 n st)
  then show ?case by simp
next
  case (2 n st)
  then show ?case by (simp split: if_splits)
next
  case (3 n a st)
  then show ?case by (cases "snd st") (auto split: if_splits)
next
  case (4 n r1 r2 st)
  from "4.prems" obtain st1 where a: "st1 \<in> set (rmatch n r1 st)" and b: "st' \<in> set (rmatch n r2 st1)"
    by auto
  from "4.IH"(1)[OF a] obtain u where u: "u \<in> lang r1" "snd st = u @ snd st1" by blast
  from "4.IH"(2)[OF a b] obtain v where v: "v \<in> lang r2" "snd st1 = v @ snd st'" by blast
  from u v show ?case by auto
next
  case (5 n r1 r2 st)
  from "5.prems" have "st' \<in> set (rmatch n r1 st) \<or> st' \<in> set (rmatch n r2 st)" by simp
  then show ?case
  proof
    assume a: "st' \<in> set (rmatch n r1 st)"
    from "5.IH"(1)[OF a] show ?thesis by auto
  next
    assume a: "st' \<in> set (rmatch n r2 st)"
    from "5.IH"(2)[OF a] show ?thesis by auto
  qed
next
  case (6 n r st)
  from "6.prems" have "st' \<in> set (rmatch n r st) \<or> st' = st" by auto
  then show ?case
  proof
    assume a: "st' \<in> set (rmatch n r st)"
    from "6.IH"[OF a] show ?thesis by auto
  next
    assume "st' = st"
    then show ?thesis by simp
  qed
next
  case (7 n r st)
  from "7.prems" consider "st' = st"
    | st1 where "st1 \<in> set (rmatch n r st)" "length (snd st1) < length (snd st)"
        "st' \<in> set (rmatch n (Star r) st1)"
    unfolding rmatch_Star_iff[of st' n r st] by blast
  then show ?case
  proof cases
    case 1
    then show ?thesis by (auto intro: star.intros)
  next
    case 2
    from "7.IH"(1)[OF 2(1)] obtain u where u: "u \<in> lang r" "snd st = u @ snd st1" by blast
    from "7.IH"(2)[OF 2(1) 2(2) 2(3)] obtain v where v: "v \<in> star (lang r)" "snd st1 = v @ snd st'"
      by auto
    from u v have "u @ v \<in> star (lang r)" by (auto intro: star.intros)
    with u v show ?thesis by auto
  qed
next
  case (8 n r st)
  from "8.prems" obtain st1 where a: "st1 \<in> set (rmatch n r st)" and b: "snd st' = snd st1"
    by auto
  from "8.IH"[OF a] b show ?case by simp
qed

lemma rmatch_no_groups:
  "no_groups r \<Longrightarrow> st' \<in> set (rmatch n r st) \<Longrightarrow> fst st' = fst st"
proof (induction n r st arbitrary: st' rule: rmatch.induct)
  case (4 n r1 r2 st)
  from "4.prems" obtain st1 where a: "st1 \<in> set (rmatch n r1 st)" and b: "st' \<in> set (rmatch n r2 st1)"
    by auto
  from "4.IH"(1)[OF _ a] "4.IH"(2)[OF a _ b] "4.prems"(1) show ?case by simp
next
  case (7 n r st)
  from "7.prems" consider "st' = st"
    | st1 where "st1 \<in> set (rmatch n r st)" "length (snd st1) < length (snd st)"
        "st' \<in> set (rmatch n (Star r) st1)"
    unfolding rmatch_Star_iff[of st' n r st] by blast
  then show ?case
  proof cases
    case 1
    then show ?thesis by simp
  next
    case 2
    from "7.IH"(1)[OF _ 2(1)] "7.IH"(2)[OF 2(1) 2(2) _ 2(3)] "7.prems"(1) show ?thesis by simp
  qed
next
  case (5 n r1 r2 st)
  from "5.prems" have "st' \<in> set (rmatch n r1 st) \<or> st' \<in> set (rmatch n r2 st)" by simp
  then show ?case
  proof
    assume a: "st' \<in> set (rmatch n r1 st)"
    from "5.IH"(1)[OF _ a] "5.prems"(1) show ?thesis by simp
  next
    assume a: "st' \<in> set (rmatch n r2 st)"
    from "5.IH"(2)[OF _ a] "5.prems"(1) show ?thesis by simp
  qed
next
  case (6 n r st)
  from "6.prems" have "st' \<in> set (rmatch n r st) \<or> st' = st" by auto
  then show ?case
  proof
    assume a: "st' \<in> set (rmatch n r st)"
    from "6.IH"[OF _ a] "6.prems"(1) show ?thesis by simp
  next
    assume "st' = st"
    then show ?thesis by simp
  qed
next
  case (3 n a st)
  then show ?case by (cases "snd st") (auto split: if_splits)
qed (simp_all split: if_splits)

lemma rmatch_group:
  assumes "no_groups r" "st' \<in> set (rmatch n (Group r) st)"
  shows "\<exists>w \<in> lang r. fst st' = fst st @ [w] \<and> snd st = w @ snd st'"
proof -
  from assms(2) obtain st1 where a: "st1 \<in> set (rmatch n r st)"
    and b: "st' = (fst st1 @ [take (length (snd st) - length (snd st1)) (snd st)], snd st1)"
    by auto
  from rmatch_lang[OF a] obtain w where w: "w \<in> lang r" "snd st = w @ snd st1" by blast
  from rmatch_no_groups[OF assms(1) a] have "fst st1 = fst st" .
  with b w show ?thesis by auto
qed


lemma lower_char_comma [simp]: "lower_char c = CHR '','' \<longleftrightarrow> c = CHR '',''"
  by (simp add: lower_char_def ascii_upper_def ascii_lower_def)

lemma lower_char_dot [simp]: "lower_char c = CHR ''.'' \<longleftrightarrow> c = CHR ''.''"
  by (simp add: lower_char_def ascii_upper_def ascii_lower_def)

lemma lower_char_comma_self [simp]: "lower_char CHR '','' = CHR '',''"
  by (simp add: lower_char_def ascii_upper_def ascii_lower_def)

lemma lower_char_dot_self [simp]: "lower_char CHR ''.'' = CHR ''.''"
  by (simp add: lower_char_def ascii_upper_def ascii_lower_def)

lemma not_digit_comma [simp]: "\<not> is_digit CHR '',''"
  by (simp add: is_digit_def ascii_digits_def)

lemma not_digit_dot [simp]: "\<not> is_digit CHR ''.''"
  by (simp add: is_digit_def ascii_digits_def)

lemma star_digits:
  "v \<in> star {[c] |c. is_digit c} \<Longrightarrow> list_all is_digit v"
  by (induction rule: star.induct) auto

lemma lang_digits:
  "w \<in> lang (Plus (Atom Digit)) \<Longrightarrow> w \<noteq> [] \<and> list_all is_digit w"
  by (auto simp: Plus_def dest: star_digits)

lemma remove_commas_digits:
  "list_all is_digit w \<Longrightarrow> remove_commas w = w"
  by (induction w) (auto simp: remove_commas_def)

lemma star_comma_digits:
  "v \<in> star (lang (Seq (Atom (ICh CHR '','')) (Plus (Atom Digit)))) \<Longrightarrow>
   list_all is_digit (remove_commas v)"
proof (induction rule: star.induct)
  case star_nil
  then show ?case by (simp add: remove_commas_def)
next
  case (star_step u v)
  from star_step.hyps(1) obtain d where d: "u = CHR '','' # d" "d \<in> lang (Plus (Atom Digit))"
    by auto
  from lang_digits[OF d(2)] have "list_all is_digit d" by simp
  with d(1) star_step.IH show ?case
    by (auto simp: remove_commas_def list_all_iff)
qed

lemma py_float_digits:
  assumes "D \<noteq> []" "list_all is_digit D"
  shows "\<exists>v. py_float D = Some v"
proof -
  from assms(2) have tw: "takeWhile is_digit D = D" and dw: "dropWhile is_digit D = []"
    by (simp_all add: list_all_iff)
  from assms(1) show ?thesis by (simp add: py_float_def tw dw)
qed

lemma py_float_digits_point:
  assumes "D \<noteq> []" "list_all is_digit D" "F \<noteq> []" "list_all is_digit F"
  shows "\<exists>v. py_float (D @ CHR ''.'' # F) = Some v"
proof -
  from assms(2) have tw: "takeWhile is_digit (D @ CHR ''.'' # F) = D"
    and dw: "dropWhile is_digit (D @ CHR ''.'' # F) = CHR ''.'' # F"
    by (simp_all add: list_all_iff takeWhile_append2 dropWhile_append2)
  from assms show ?thesis by (simp add: py_float_def tw dw)
qed

lemma number_parses:
  assumes "w \<in> lang number"
  shows "\<exists>v. py_float (remove_commas w) = Some v"
proof -
  from assms obtain d cs f where w: "w = d @ cs @ f"
    and d: "d \<in> lang (Plus (Atom Digit))"
    and cs: "cs \<in> star (lang (Seq (Atom (ICh CHR '','')) (Plus (Atom Digit))))"
    and f: "f \<in> lang (Opt (Seq (Atom (ICh CHR ''.'')) (Plus (Atom Digit))))"
    by (auto simp: number_def)
  from lang_digits[OF d] have d': "d \<noteq> []" "list_all is_digit d" by simp_all
  define D where "D = d @ remove_commas cs"
  from d' star_comma_digits[OF cs] have D: "D \<noteq> []" "list_all is_digit D"
    by (simp_all add: D_def)
  have "remove_commas w = remove_commas d @ remove_commas cs @ remove_commas f"
    by (simp add: w remove_commas_def)
  with remove_commas_digits[OF d'(2)] have rw: "remove_commas w = D @ remove_commas f"
    by (simp add: D_def)
  from f consider "f = []" | F where "f = CHR ''.'' # F" "F \<in> lang (Plus (Atom Digit))"
    by auto
  then show ?thesis
  proof cases
    case 1
    with rw D py_float_digits[OF D] show ?thesis by (simp add: remove_commas_def)
  next
    case 2
    from lang_digits[OF 2(2)] have F: "F \<noteq> []" "list_all is_digit F" by simp_all
    from remove_commas_digits[OF F(2)] have "remove_commas f = CHR ''.'' # F"
      by (simp add: 2(1) remove_commas_def)
    with rw py_float_digits_point[OF D F] show ?thesis by simp
  qed
qed


lemma match_here_rmatch:
  "match_here r n s = Some m \<Longrightarrow> m \<in> set (rmatch n r ([], s))"
  by (auto simp: match_here_def split: list.splits)

lemma search_from_rmatch:
  "search_from r n s = Some m \<Longrightarrow> \<exists>s0. m \<in> set (rmatch n r ([], s0))"
  by (induction s) (auto split: option.splits dest: match_here_rmatch)

lemma finditer_from_rmatch:
  "gs \<in> set (finditer_from r n s) \<Longrightarrow> \<exists>s0 m. m \<in> set (rmatch n r ([], s0)) \<and> gs = fst m"
proof (induction r n s rule: finditer_from.induct)
  case (1 r n)
  then obtain m where "match_here r n [] = Some m" "gs = fst m"
    by (cases "match_here r n []") auto
  with match_here_rmatch[of r n "[]" m] show ?case by blast
next
  case (2 r n c cs)
  show ?case
  proof (cases "search_from r n (c # cs)")
    case None
    with "2.prems" show ?thesis by simp
  next
    case (Some m)
    from search_from_rmatch[OF Some] obtain s0 where s0: "m \<in> set (rmatch n r ([], s0))" ..
    show ?thesis
    proof (cases "gs = fst m")
      case True
      with s0 show ?thesis by blast
    next
      case False
      have eq: "finditer_from r n (c # cs) =
              fst m # (if length (snd m) < length (c # cs) then finditer_from r n (snd m)
                       else finditer_from r n cs)"
        using Some by (simp only: finditer_from.simps option.simps)
      from "2.prems" have "gs \<in> set (fst m # (if length (snd m) < length (c # cs)
                        then finditer_from r n (snd m) else finditer_from r n cs))"
        unfolding eq .
      with False
      have "gs \<in> set (if length (snd m) < length (c # cs) then finditer_from r n (snd m)
                        else finditer_from r n cs)"
        by (simp del: finditer_from.simps search_from.simps)
      with "2.IH"[OF Some] show ?thesis by (auto split: if_splits)
    qed
  qed
qed

lemma re_finditer_rmatch:
  "gs \<in> set (re_finditer r s) \<Longrightarrow> \<exists>n s0 m. m \<in> set (rmatch n r ([], s0)) \<and> gs = fst m"
  unfolding re_finditer_def by (blast dest: finditer_from_rmatch)

lemma re_search_rmatch:
  "re_search r s = Some m \<Longrightarrow> \<exists>n s0. m \<in> set (rmatch n r ([], s0))"
  unfolding re_search_def by (blast dest: search_from_rmatch)

lemma no_groups_seqs: "no_groups (seqs rs) = list_all no_groups rs"
  by (induction rs rule: seqs.induct) auto

lemma no_groups_alts: "no_groups (alts rs) = list_all no_groups rs"
  by (induction rs rule: alts.induct) auto

lemma no_groups_ilit [simp]: "no_groups (ilit s)"
  by (simp add: ilit_def no_groups_seqs list_all_iff)

lemma no_groups_lit [simp]: "no_groups (lit s)"
  by (simp add: lit_def no_groups_seqs list_all_iff)

lemma no_groups_ws [simp]: "no_groups ws1" "no_groups ws0" "no_groups currency" "no_groups number"
  by (simp_all add: ws1_def ws0_def currency_def number_def Plus_def)

lemma flat_cases:
  assumes "flat r" "\<not> no_groups r"
  obtains r' where "r = Group r'" "no_groups r'"
  using assms by (cases r) (auto simp: flat_def)

lemma rmatch_flat:
  assumes "flat r" "st' \<in> set (rmatch n r st)"
  shows "\<exists>ws. fst st' = fst st @ ws \<and> list_all2 (\<lambda>w r. w \<in> lang r) ws (group_bodies [r])"
proof (cases "no_groups r")
  case True
  with rmatch_no_groups[OF True assms(2)] show ?thesis by simp
next
  case False
  with assms(1) obtain r' where r': "r = Group r'" "no_groups r'" by (rule flat_cases)
  from rmatch_group[OF r'(2) assms(2)[unfolded r'(1)]] obtain w
    where "w \<in> lang r'" "fst st' = fst st @ [w]" by blast
  with r' show ?thesis by simp
qed

lemma group_bodies_append:
  "group_bodies (rs @ rs') = group_bodies rs @ group_bodies rs'"
  by (induction rs) auto

lemma rmatch_seqs_groups:
  "list_all flat rs \<Longrightarrow> st' \<in> set (rmatch n (seqs rs) st) \<Longrightarrow>
   \<exists>ws. fst st' = fst st @ ws \<and> list_all2 (\<lambda>w r. w \<in> lang r) ws (group_bodies rs)"
proof (induction rs arbitrary: st rule: seqs.induct)
  case 1
  then show ?case by simp
next
  case (2 r)
  then show ?case using rmatch_flat[of r st' n st] by simp
next
  case (3 r r' rs)
  from "3.prems"(2) obtain st1 where a: "st1 \<in> set (rmatch n r st)"
    and b: "st' \<in> set (rmatch n (seqs (r' # rs)) st1)"
    by auto
  from "3.prems"(1) have fr: "flat r" and frs: "list_all flat (r' # rs)" by simp_all
  from rmatch_flat[OF fr a] obtain ws1 where ws1: "fst st1 = fst st @ ws1"
    "list_all2 (\<lambda>w r. w \<in> lang r) ws1 (group_bodies [r])" by blast
  from "3.IH"[OF frs b] obtain ws2 where ws2: "fst st' = fst st1 @ ws2"
    "list_all2 (\<lambda>w r. w \<in> lang r) ws2 (group_bodies (r' # rs))" by blast
  have "group_bodies (r # r' # rs) = group_bodies [r] @ group_bodies (r' # rs)"
    using group_bodies_append[of "[r]" "r' # rs"] by simp
  with ws1 ws2 have "fst st' = fst st @ (ws1 @ ws2) \<and>
      list_all2 (\<lambda>w r. w \<in> lang r) (ws1 @ ws2) (group_bodies (r # r' # rs))"
    by (simp add: list_all2_appendI)
  then show ?case by blast
qed

lemma flat_no_groups: "no_groups r \<Longrightarrow> flat r"
  by (simp add: flat_def)

lemma flat_Group: "no_groups r \<Longrightarrow> flat (Group r)"
  by (simp add: flat_def)

lemma no_groups_Plus [simp]: "no_groups (Plus r) = no_groups r"
  by (simp add: Plus_def)

text \<open>Every match of the expense pattern has two groups: a number and a category text.\<close>

lemma expense_groups:
  assumes "m \<in> set (rmatch n expense_pattern ([], s))"
  shows "\<exists>a c. fst m = [a, c] \<and> a \<in> lang number \<and> c \<in> lang (Plus (Atom AlphaSpace))"
proof -
  have "\<exists>ws. fst m = fst ([]::string list, s) @ ws \<and> list_all2 (\<lambda>w r. w \<in> lang r) ws
     (group_bodies [alts [ilit ''spend'', ilit ''spent'', ilit ''spending'', ilit ''pay'', ilit ''paying'',
                 ilit ''paid'', ilit ''expense'', ilit ''expenses'', ilit ''cost'', ilit ''costs''],
           ws1, currency, ws0, Group number,
           ws1, alts [ilit ''on'', ilit ''for'', ilit ''in''], ws1,
           Group (Plus (Atom AlphaSpace))])"
    by (rule rmatch_seqs_groups[OF _ assms[unfolded expense_pattern_def]])
       (simp add: flat_no_groups flat_Group no_groups_alts)
  then show ?thesis
    by (auto simp: no_groups_alts list_all2_Cons2)
qed

subsection \<open>Dictionaries\<close>

lemma record_expense_keys:
  "map fst (record_expense gs d) =
     (case amount_of gs 1 of
        None \<Rightarrow> map fst d
      | Some a \<Rightarrow> if category_of gs \<in> set (map fst d) then map fst d
                  else map fst d @ [category_of gs])"
  by (simp add: record_expense_def dict_set_def update_keys split: option.splits)

lemma record_expense_map_of:
  "map_of (record_expense gs d) =
     (case amount_of gs 1 of None \<Rightarrow> map_of d | Some a \<Rightarrow> (map_of d)(category_of gs \<mapsto> a))"
  by (simp add: record_expense_def dict_set_def update_conv' split: option.splits)

lemma record_expense_distinct:
  "distinct (map fst d) \<Longrightarrow> distinct (map fst (record_expense gs d))"
  by (simp add: record_expense_def dict_set_def distinct_update split: option.splits)

lemma fold_record_distinct:
  "distinct (map fst d) \<Longrightarrow> distinct (map fst (fold record_expense ms d))"
  by (induction ms arbitrary: d) (simp_all add: record_expense_distinct)

lemma fold_record_keys_mono:
  "k \<in> set (map fst d) \<Longrightarrow> k \<in> set (map fst (fold record_expense ms d))"
proof (induction ms arbitrary: d)
  case Nil
  then show ?case by simp
next
  case (Cons gs ms)
  from Cons.prems have "k \<in> set (map fst (record_expense gs d))"
    unfolding record_expense_keys by (simp split: option.splits)
  from Cons.IH[OF this] show ?case by simp
qed

lemma fold_record_keys_in:
  "gs \<in> set ms \<Longrightarrow> amount_of gs 1 = Some a \<Longrightarrow>
   category_of gs \<in> set (map fst (fold record_expense ms d))"
proof (induction ms arbitrary: d)
  case Nil
  then show ?case by simp
next
  case (Cons x ms)
  show ?case
  proof (cases "gs = x")
    case True
    with Cons.prems(2) have "category_of gs \<in> set (map fst (record_expense x d))"
      unfolding record_expense_keys by simp
    from fold_record_keys_mono[OF this] show ?thesis by simp
  next
    case False
    with Cons.prems have "gs \<in> set ms" by simp
    from Cons.IH[OF this Cons.prems(2)] show ?thesis by simp
  qed
qed

lemma fold_record_keys_same:
  "(\<forall>gs \<in> set ms. amount_of gs 1 \<noteq> None \<longrightarrow> category_of gs \<in> set (map fst d)) \<Longrightarrow>
   map fst (fold record_expense ms d) = map fst d"
proof (induction ms arbitrary: d)
  case Nil
  then show ?case by simp
next
  case (Cons x ms)
  from Cons.prems have same: "map fst (record_expense x d) = map fst d"
    unfolding record_expense_keys by (auto split: option.splits)
  with Cons.prems have "\<forall>gs \<in> set ms. amount_of gs 1 \<noteq> None \<longrightarrow>
      category_of gs \<in> set (map fst (record_expense x d))"
    by simp
  from Cons.IH[OF this] same show ?case by simp
qed

text \<open>The same loop on the finite map that the dictionary stands for.\<close>

lemma fold_record_map_of:
  "map_of (fold record_expense ms d) = map_of d ++ map_of (fold record_expense ms [])"
proof (induction ms arbitrary: d rule: rev_induct)
  case Nil
  then show ?case by simp
next
  case (snoc x ms)
  show ?case
    by (auto simp: record_expense_map_of snoc.IH[of d] fun_eq_iff map_add_def
             split: option.splits)
qed

lemma map_add_self: "m ++ m = m"
  by (simp add: map_add_def fun_eq_iff split: option.splits)

lemma fold_record_map_of_twice:
  "map_of (fold record_expense ms (fold record_expense ms d)) = map_of (fold record_expense ms d)"
proof -
  have "map_of (fold record_expense ms (fold record_expense ms d)) =
        (map_of d ++ map_of (fold record_expense ms [])) ++ map_of (fold record_expense ms [])"
    by (subst fold_record_map_of) (simp add: fold_record_map_of[of ms d])
  also have "\<dots> = map_of d ++ map_of (fold record_expense ms [])"
    by (metis map_add_assoc map_add_self)
  finally show ?thesis by (simp add: fold_record_map_of[of ms d])
qed

lemma alist_eqI:
  "distinct (map fst xs) \<Longrightarrow> map fst xs = map fst ys \<Longrightarrow> map_of xs = map_of ys \<Longrightarrow> xs = ys"
proof (induction xs arbitrary: ys)
  case Nil
  then show ?case by simp
next
  case (Cons x xs)
  from Cons.prems(2) obtain y ys' where ys: "ys = y # ys'" "fst x = fst y" "map fst xs = map fst ys'"
    by (cases ys) auto
  from fun_cong[OF Cons.prems(3), of "fst x"] ys(1)
  have "map_of (x # xs) (fst x) = map_of (y # ys') (fst x)" by simp
  with ys(2) have xy: "x = y" by (cases x, cases y) simp
  have "map_of xs = map_of ys'"
  proof
    fix k
    show "map_of xs k = map_of ys' k"
    proof (cases "k = fst x")
      case True
      from Cons.prems(1) True have kx: "k \<notin> set (map fst xs)" by simp
      with ys(3) have ky: "k \<notin> set (map fst ys')" by metis
      from kx have "map_of xs k = None" by (simp add: map_of_eq_None_iff)
      moreover from ky have "map_of ys' k = None" by (simp add: map_of_eq_None_iff)
      ultimately show ?thesis by simp
    next
      case False
      from fun_cong[OF Cons.prems(3), of k] ys(1)
      have "map_of (x # xs) k = map_of (y # ys') k" by simp
      with False xy show ?thesis by (cases x) (simp split: if_splits)
    qed
  qed
  with Cons.IH[of ys'] Cons.prems(1) ys(3) xy ys(1) show ?case by simp
qed

lemma fold_record_idem:
  assumes "distinct (map fst d)"
  shows "fold record_expense ms (fold record_expense ms d) = fold record_expense ms d"
proof (rule alist_eqI)
  let ?d' = "fold record_expense ms d"
  show "distinct (map fst (fold record_expense ms ?d'))"
    by (intro fold_record_distinct assms)
  have "\<forall>gs \<in> set ms. amount_of gs 1 \<noteq> None \<longrightarrow> category_of gs \<in> set (map fst ?d')"
    using fold_record_keys_in by blast
  from fold_record_keys_same[OF this]
  show "map fst (fold record_expense ms ?d') = map fst ?d'" .
  show "map_of (fold record_expense ms ?d') = map_of ?d'"
    by (rule fold_record_map_of_twice)
qed

lemma fold_record_other:
  "k \<notin> category_of ` set ms \<Longrightarrow> dict_get (fold record_expense ms d) k = dict_get d k"
  by (induction ms arbitrary: d)
     (auto simp: dict_get_def record_expense_map_of split: option.splits)

lemma fold_record_last:
  "i < length ms \<Longrightarrow>
   (\<forall>j. i < j \<longrightarrow> j < length ms \<longrightarrow> category_of (ms ! j) \<noteq> category_of (ms ! i)) \<Longrightarrow>
   amount_of (ms ! i) 1 = Some a \<Longrightarrow>
   dict_get (fold record_expense ms d) (category_of (ms ! i)) = Some a"
proof (induction ms arbitrary: i d)
  case Nil
  then show ?case by simp
next
  case (Cons x ms)
  show ?case
  proof (cases i)
    case 0
    have "category_of x \<notin> category_of ` set ms"
    proof
      assume "category_of x \<in> category_of ` set ms"
      then obtain j where "j < length ms" "category_of (ms ! j) = category_of x"
        by (auto simp: in_set_conv_nth)
      with Cons.prems(2)[rule_format, of "Suc j"] 0 show False by simp
    qed
    from fold_record_other[OF this] Cons.prems(3) 0 show ?thesis
      by (simp add: dict_get_def record_expense_map_of)
  next
    case (Suc i')
    from Cons.prems(1) Suc have a: "i' < length ms" by simp
    have b: "\<forall>j. i' < j \<longrightarrow> j < length ms \<longrightarrow> category_of (ms ! j) \<noteq> category_of (ms ! i')"
    proof (intro allI impI)
      fix j assume "i' < j" "j < length ms"
      with Cons.prems(2)[rule_format, of "Suc j"] Suc
      show "category_of (ms ! j) \<noteq> category_of (ms ! i')" by simp
    qed
    from Cons.prems(3) Suc have c: "amount_of (ms ! i') 1 = Some a" by simp
    from Cons.IH[OF a b c] Suc show ?thesis by simp
  qed
qed

subsection \<open>What each step of the extraction changes\<close>

lemma extract_income_form:
  "(\<forall>s. extract_income t s = s) \<or> (\<exists>v. \<forall>s. extract_income t s = s\<lparr>income := Some v\<rparr>)"
proof (cases "re_search income_pattern t")
  case None
  then show ?thesis by (simp add: extract_income_def)
next
  case (Some m)
  show ?thesis
  proof (cases "amount_of (fst m) 1")
    case None
    with Some show ?thesis by (simp add: extract_income_def)
  next
    case (Some v)
    with \<open>re_search income_pattern t = Some m\<close>
    have "\<forall>s. extract_income t s = s\<lparr>income := Some v\<rparr>" by (simp add: extract_income_def)
    then show ?thesis by blast
  qed
qed

lemma extract_savings_form:
  "(\<forall>s. extract_savings ps t s = s) \<or>
   (\<exists>v. \<forall>s. extract_savings ps t s = s\<lparr>savings_goal := Some v\<rparr>)"
proof (induction ps)
  case Nil
  then show ?case by simp
next
  case (Cons p ps)
  show ?case
  proof (cases "re_search p t")
    case None
    with Cons.IH show ?thesis by simp
  next
    case (Some m)
    show ?thesis
    proof (cases "amount_of (fst m) 1")
      case None
      with Some Cons.IH show ?thesis by simp
    next
      case (Some v)
      with \<open>re_search p t = Some m\<close>
      have "\<forall>s. extract_savings (p # ps) t s = s\<lparr>savings_goal := Some v\<rparr>" by simp
      then show ?thesis by blast
    qed
  qed
qed

lemma extract_name_form:
  "(\<forall>s. extract_name t s = s) \<or>
   (\<exists>nm. \<forall>s. extract_name t s = (if no_name s then s\<lparr>user_name := Some nm\<rparr> else s))"
proof (cases "first_name_match user_name_patterns t")
  case None
  then show ?thesis by (simp add: extract_name_def)
next
  case (Some nm)
  then have "\<forall>s. extract_name t s = (if no_name s then s\<lparr>user_name := Some nm\<rparr> else s)"
    by (simp add: extract_name_def)
  then show ?thesis by blast
qed

lemma extract_financial_info_idem_distinct:
  assumes "distinct (map fst (expenses s))"
  shows "extract_financial_info t (extract_financial_info t s) = extract_financial_info t s"
proof -
  note forms = extract_income_form[of t] extract_savings_form[of savings_patterns t]
    extract_name_form[of t]
  have e: "fold record_expense ms (fold record_expense ms (expenses s)) =
           fold record_expense ms (expenses s)" for ms
    by (rule fold_record_idem[OF assms])
  from forms show ?thesis
    by (elim disjE exE) (simp_all add: extract_financial_info_def extract_expenses_def e no_name_def)
qed

subsection \<open>The expense matches\<close>

lemma expense_matches_parse:
  assumes "gs \<in> set (re_finditer expense_pattern text)"
  shows "\<exists>a. amount_of gs 1 = Some a"
proof -
  from re_finditer_rmatch[OF assms] obtain n s0 m
    where m: "m \<in> set (rmatch n expense_pattern ([], s0))" "gs = fst m" by blast
  from expense_groups[OF m(1)] m(2) obtain a c where "gs = [a, c]" "a \<in> lang number" by auto
  with number_parses[of a] show ?thesis by (simp add: amount_of_def group_def)
qed

lemma expenses_extract_financial_info:
  "expenses (extract_financial_info text s) =
   fold record_expense (re_finditer expense_pattern text) (expenses s)"
proof -
  note forms = extract_income_form[of "text"] extract_savings_form[of savings_patterns "text"]
    extract_name_form[of "text"]
  from forms show ?thesis
    by (elim disjE exE) (simp_all add: extract_financial_info_def extract_expenses_def)
qed

subsection \<open>Greetings\<close>

lemma str_in_iff_sublist: "str_in needle hay \<longleftrightarrow> sublist needle hay"
  by (induction hay) (simp_all add: sublist_Cons_right)

lemma random_choice_in: "xs \<noteq> [] \<Longrightarrow> random_choice r xs \<in> set xs"
  by (simp add: random_choice_def)

lemma greeting_token_iff:
  "list_ex (\<lambda>greeting. str_in greeting (lower u)) greetings \<longleftrightarrow>
   (\<exists>g \<in> {''hi'', ''hello'', ''hey'', ''hola'', ''greetings''}. sublist g (lower u))"
  by (simp add: greetings_def str_in_iff_sublist)

subsection \<open>Amounts always parse\<close>

lemma number_group_parses:
  assumes "list_all flat rs" "group_bodies rs = [number]" "re_search (seqs rs) u = Some m"
  shows "\<exists>v. amount_of (fst m) 1 = Some v"
proof -
  from re_search_rmatch[OF assms(3)] obtain n s0 where "m \<in> set (rmatch n (seqs rs) ([], s0))"
    by blast
  from rmatch_seqs_groups[OF assms(1) this] assms(2)
  obtain w where "fst m = [w]" "w \<in> lang number"
    by (auto simp: list_all2_Cons2)
  with number_parses[of w] show ?thesis by (simp add: amount_of_def group_def)
qed

lemma savings_amount_parses:
  assumes "p \<in> set savings_patterns" "re_search p u = Some m"
  shows "\<exists>v. amount_of (fst m) 1 = Some v"
proof -
  from assms(1) consider "p = savings_patterns ! 0" | "p = savings_patterns ! 1"
    by (auto simp: savings_patterns_def)
  then show ?thesis
  proof cases
    case 1
    with assms(2) show ?thesis
      by (intro number_group_parses[where rs = "[alts [ilit ''save'', ilit ''saving'',
             ilit ''savings'', ilit ''goal''], ws1, currency, ws0, Group number]"])
         (simp_all add: savings_patterns_def flat_no_groups flat_Group no_groups_alts)
  next
    case 2
    with assms(2) show ?thesis
      by (intro number_group_parses[where rs = "[alts [ilit ''want to'', ilit ''wanna'',
             ilit ''going to'', ilit ''plan to''], ws1, ilit ''save'', ws1, currency, ws0,
             Group number]"])
         (simp_all add: savings_patterns_def flat_no_groups flat_Group no_groups_alts)
  qed
qed

lemma income_amount_parses:
  assumes "re_search income_pattern u = Some m"
  shows "\<exists>v. amount_of (fst m) 1 = Some v"
  using assms
  by (intro number_group_parses[where rs = "[alts [ilit ''income'', ilit ''earn'',
         ilit ''salary'', ilit ''make'', ilit ''making''],
         Opt (Alt (Seq ws1 (ilit ''is'')) (Seq ws1 (ilit ''of''))),
         ws1, currency, ws0, Group number]"])
     (simp_all add: income_pattern_def flat_no_groups flat_Group no_groups_alts)

lemma expense_amount_parses:
  assumes "re_search expense_pattern u = Some m"
  shows "\<exists>v. amount_of (fst m) 1 = Some v"
proof -
  from re_search_rmatch[OF assms] obtain n s0 where "m \<in> set (rmatch n expense_pattern ([], s0))"
    by blast
  from expense_groups[OF this] obtain a c where "fst m = [a, c]" "a \<in> lang number" by auto
  with number_parses[of a] show ?thesis by (simp add: amount_of_def group_def)
qed

subsection \<open>The local responder\<close>

lemma savings_reply_None:
  "savings_reply ps rnd u s = None \<longleftrightarrow>
   (\<forall>p \<in> set ps. \<forall>m. re_search p u = Some m \<longrightarrow> amount_of (fst m) 1 = None)"
  by (induction ps) (auto split: option.splits)

lemma savings_reply_Some:
  "savings_reply ps rnd u s = Some out \<Longrightarrow>
   \<exists>p \<in> set ps. \<exists>m g. re_search p u = Some m \<and> amount_of (fst m) 1 = Some g \<and>
     out = (format (random_choice (rnd 0) savings_goal_added) [(F_goal, fmt_comma_0f g)],
            s\<lparr>savings_goal := Some g\<rparr>)"
  by (induction ps) (auto split: option.splits)

lemma savings_reply_None_iff:
  "savings_reply savings_patterns rnd u s = None \<longleftrightarrow>
   (\<forall>p \<in> set savings_patterns. re_search p u = None)"
proof
  assume "savings_reply savings_patterns rnd u s = None"
  then have *: "\<forall>p \<in> set savings_patterns. \<forall>m. re_search p u = Some m \<longrightarrow>
      amount_of (fst m) 1 = None"
    by (simp only: savings_reply_None)
  show "\<forall>p \<in> set savings_patterns. re_search p u = None"
  proof
    fix p assume p: "p \<in> set savings_patterns"
    show "re_search p u = None"
    proof (cases "re_search p u")
      case (Some m)
      with * p have "amount_of (fst m) 1 = None" by blast
      with savings_amount_parses[OF p Some] show ?thesis by simp
    qed simp
  qed
next
  assume "\<forall>p \<in> set savings_patterns. re_search p u = None"
  then show "savings_reply savings_patterns rnd u s = None"
    by (simp only: savings_reply_None) simp
qed

lemma format_savings_goal_added:
  "\<exists>t. format (random_choice r savings_goal_added) [(F_goal, g)] = Inr t"
proof -
  have "random_choice r savings_goal_added \<in> set savings_goal_added"
    by (rule random_choice_in) (simp add: savings_goal_added_def)
  moreover have "\<exists>x. format t [(F_goal, g)] = Inr x" if "t \<in> set savings_goal_added" for t
    using that by (auto simp: savings_goal_added_def)
  ultimately show ?thesis by blast
qed

lemma generate_contextual_response_state:
  "snd (generate_contextual_response rnd u s) = s \<or>
   (\<exists>g. snd (generate_contextual_response rnd u s) = s\<lparr>savings_goal := Some g\<rparr>)"
proof (cases "savings_reply savings_patterns rnd u s")
  case None
  then show ?thesis
    by (simp add: generate_contextual_response_def split: option.splits)
next
  case (Some out)
  from savings_reply_Some[OF this] obtain g where "snd out = s\<lparr>savings_goal := Some g\<rparr>"
    by auto
  with Some show ?thesis
    by (auto simp: generate_contextual_response_def)
qed

lemma total_expenses_sum: "total_expenses s = sum_values (expenses s)"
  by (simp add: total_expenses_def sum_values_def)

lemma savings_none:
  "\<forall>p \<in> set savings_patterns. re_search p u = None \<Longrightarrow>
   savings_reply savings_patterns rnd u s = None"
  by (simp only: savings_reply_None_iff)

lemma gcr_rename:
  "rename_attempt local_names u \<Longrightarrow>
   generate_contextual_response rnd u s = (Inr local_rename_reply, s)"
  by (simp add: generate_contextual_response_def)

lemma gcr_identity:
  "\<not> rename_attempt local_names u \<Longrightarrow> identity_query u \<Longrightarrow>
   generate_contextual_response rnd u s = (Inr local_identity_reply, s)"
  by (simp add: generate_contextual_response_def)

lemma gcr_savings:
  assumes "\<not> rename_attempt local_names u" "\<not> identity_query u"
    and "\<exists>p \<in> set savings_patterns. re_search p u \<noteq> None"
  shows "\<exists>p \<in> set savings_patterns. \<exists>m g.
         re_search p u = Some m \<and> amount_of (fst m) 1 = Some g \<and>
         generate_contextual_response rnd u s =
           (format (random_choice (rnd 0) savings_goal_added) [(F_goal, fmt_comma_0f g)],
            s\<lparr>savings_goal := Some g\<rparr>)"
proof -
  from assms(3) have "savings_reply savings_patterns rnd u s \<noteq> None"
    by (simp only: savings_reply_None_iff) simp
  then obtain out where out: "savings_reply savings_patterns rnd u s = Some out" by blast
  from assms(1,2) out have "generate_contextual_response rnd u s = out"
    by (simp add: generate_contextual_response_def)
  with savings_reply_Some[OF out] show ?thesis by simp
qed

lemma gcr_income:
  assumes "\<not> rename_attempt local_names u" "\<not> identity_query u"
    and "\<forall>p \<in> set savings_patterns. re_search p u = None"
    and "income s = Some inc" "length (conversation_history s) < 3"
  shows "generate_contextual_response rnd u s =
        (format (random_choice (rnd 0) income_added) [(F_income, fmt_comma_0f inc)], s)"
  using assms savings_none[OF assms(3), of rnd s]
  by (simp add: generate_contextual_response_def income_reply_def)

lemma gcr_expense:
  assumes "\<not> rename_attempt local_names u" "\<not> identity_query u"
    and "\<forall>p \<in> set savings_patterns. re_search p u = None"
    and "\<not> (income s \<noteq> None \<and> length (conversation_history s) < 3)"
    and m: "re_search expense_pattern u = Some m"
  shows "\<exists>amount. amount_of (fst m) 1 = Some amount \<and>
         generate_contextual_response rnd u s =
           (format (random_choice (rnd 0) expense_added)
                   [(F_amount, fmt_comma_0f amount), (F_category, category_of (fst m)),
                    (F_total_expenses, fmt_comma_0f (sum_values (expenses s)))], s)"
proof -
  from expense_amount_parses[OF m] obtain amount where am: "amount_of (fst m) 1 = Some amount"
    by blast
  from assms savings_none[OF assms(3), of rnd s]
  have "generate_contextual_response rnd u s = (expense_reply rnd (fst m) s, s)"
    by (auto simp: generate_contextual_response_def)
  with am show ?thesis by (simp add: expense_reply_def total_expenses_sum)
qed

lemma gcr_analysis:
  assumes "\<not> rename_attempt local_names u" "\<not> identity_query u"
    and "\<forall>p \<in> set savings_patterns. re_search p u = None"
    and "\<not> (income s \<noteq> None \<and> length (conversation_history s) < 3)"
    and "re_search expense_pattern u = None" "analysis_request u s"
  shows "generate_contextual_response rnd u s = (analysis_reply rnd (the (income s)) s, s)"
  using assms savings_none[OF assms(3), of rnd s]
  by (auto simp: generate_contextual_response_def)

lemma gcr_general:
  assumes "\<not> rename_attempt local_names u" "\<not> identity_query u"
    and "\<forall>p \<in> set savings_patterns. re_search p u = None"
    and "\<not> (income s \<noteq> None \<and> length (conversation_history s) < 3)"
    and "re_search expense_pattern u = None" "\<not> analysis_request u s"
  shows "generate_contextual_response rnd u s = (Inr (general_reply rnd s), s)"
  using assms savings_none[OF assms(3), of rnd s]
  by (auto simp: generate_contextual_response_def)

lemma gcr_changes_state:
  assumes "snd (generate_contextual_response rnd u s) \<noteq> s"
  shows "\<not> rename_attempt local_names u \<and> \<not> identity_query u \<and>
         (\<exists>p \<in> set savings_patterns. re_search p u \<noteq> None)"
proof -
  from assms have a: "\<not> rename_attempt local_names u" "\<not> identity_query u"
    by (auto simp: generate_contextual_response_def)
  have "savings_reply savings_patterns rnd u s \<noteq> None"
  proof
    assume "savings_reply savings_patterns rnd u s = None"
    with a have "snd (generate_contextual_response rnd u s) = s"
      by (simp add: generate_contextual_response_def split: option.splits)
    with assms show False by simp
  qed
  then have "\<exists>p \<in> set savings_patterns. re_search p u \<noteq> None"
    by (simp only: savings_reply_None_iff) simp
  with a show ?thesis by simp
qed

lemma savings_patterns_set:
  "p \<in> set savings_patterns \<longleftrightarrow> p = savings_patterns ! 0 \<or> p = savings_patterns ! 1"
  by (auto simp: savings_patterns_def)

lemma savings_patterns_all:
  "(\<forall>p \<in> set savings_patterns. P p) \<longleftrightarrow> P (savings_patterns ! 0) \<and> P (savings_patterns ! 1)"
  by (simp add: savings_patterns_def)

lemma savings_patterns_ex:
  "(\<exists>p \<in> set savings_patterns. P p) \<longleftrightarrow> P (savings_patterns ! 0) \<or> P (savings_patterns ! 1)"
  by (simp add: savings_patterns_def)

subsection \<open>The budget analysis\<close>




lemma analysis_reply_example:
  assumes "income s = Some 10000" "expenses s = [(''rent'', 4000), (''food'', 1000)]"
  shows "analysis_reply rnd 10000 s =
     (case format (random_choice (rnd 0) advice_templates)
             [(F_category, ''rent''), (F_amount, ''4,000''), (F_percent, ''40.0''),
              (F_recommended, ''15-20''), (F_status, ''high''), (F_goal, ''2,000''),
              (F_savings_goal,
                 fmt_comma_0f (case savings_goal s of Some g \<Rightarrow> g | None \<Rightarrow> 2000))] of
        Inl e \<Rightarrow> Inl e
      | Inr advice \<Rightarrow>
          format (random_choice (rnd 1) budget_analysis)
            [(F_income, ''10,000''), (F_total_expenses, ''5,000''), (F_remaining, ''5,000''),
             (F_advice, advice)])"
proof -
  have f1: "fmt_comma_0f 10000 = ''10,000''" by code_simp
  have f2: "fmt_comma_0f 5000 = ''5,000''" by code_simp
  have f3: "fmt_comma_0f 4000 = ''4,000''" by code_simp
  have f4: "fmt_comma_0f 2000 = ''2,000''" by code_simp
  have f5: "fmt_1f 40 = ''40.0''" by code_simp
  show ?thesis
    by (simp add: analysis_reply_def assms total_expenses_def sum_values_def advice_args_def
        f1 f2 f3 f4 f5 cong: sum.case_cong option.case_cong)
qed

subsection \<open>The fallback path\<close>

lemma gcr_fields:
  "expenses (snd (generate_contextual_response rnd u s)) = expenses s"
  "income (snd (generate_contextual_response rnd u s)) = income s"
  "user_name (snd (generate_contextual_response rnd u s)) = user_name s"
  "conversation_history (snd (generate_contextual_response rnd u s)) = conversation_history s"
  "last_greeting_time (snd (generate_contextual_response rnd u s)) = last_greeting_time s"
  "model_available (snd (generate_contextual_response rnd u s)) = model_available s"
  using generate_contextual_response_state[of rnd u s] by auto

lemma fallback_Inl:
  "fst (generate_contextual_response rnd u s) = Inl e \<Longrightarrow>
   fallback rnd u s = (Inl e, snd (generate_contextual_response rnd u s))"
  by (cases "generate_contextual_response rnd u s") (simp add: fallback_def)

lemma fallback_Inr:
  "fst (generate_contextual_response rnd u s) = Inr r \<Longrightarrow>
   fallback rnd u s =
     (Inr r, append_turn Assistant r (snd (generate_contextual_response rnd u s)))"
  by (cases "generate_contextual_response rnd u s") (simp add: fallback_def)

lemma fallback_fst: "fst (fallback rnd u s) = fst (generate_contextual_response rnd u s)"
  by (cases "fst (generate_contextual_response rnd u s)")
     (simp_all add: fallback_Inl fallback_Inr)

lemma fallback_fields:
  "expenses (snd (fallback rnd u s)) = expenses s"
  "income (snd (fallback rnd u s)) = income s"
  "user_name (snd (fallback rnd u s)) = user_name s"
  "last_greeting_time (snd (fallback rnd u s)) = last_greeting_time s"
  "model_available (snd (fallback rnd u s)) = model_available s"
  by (cases "fst (generate_contextual_response rnd u s)";
      simp add: fallback_Inl fallback_Inr gcr_fields append_turn_def)+

lemma fallback_history:
  "conversation_history (snd (fallback rnd u s)) =
     (case fst (fallback rnd u s) of
        Inl e \<Rightarrow> conversation_history s
      | Inr reply \<Rightarrow> conversation_history s @ [(Assistant, reply)])"
  by (cases "fst (generate_contextual_response rnd u s)")
     (simp_all add: fallback_Inl fallback_Inr gcr_fields append_turn_def)

lemma prune_append_fields:
  "expenses (prune_history (append_turn r c s)) = expenses s"
  "income (prune_history (append_turn r c s)) = income s"
  "user_name (prune_history (append_turn r c s)) = user_name s"
  "savings_goal (prune_history (append_turn r c s)) = savings_goal s"
  "last_greeting_time (prune_history (append_turn r c s)) = last_greeting_time s"
  "model_available (prune_history (append_turn r c s)) = model_available s"
  by (simp_all add: prune_history_def append_turn_def)

lemma prune_history_length:
  "length (conversation_history (prune_history s)) \<le> 10"
  by (simp add: prune_history_def)

lemma extract_financial_info_history:
  "conversation_history (extract_financial_info u s) = conversation_history s"
  "model_available (extract_financial_info u s) = model_available s"
  "last_greeting_time (extract_financial_info u s) = last_greeting_time s"
proof -
  note forms = extract_income_form[of u] extract_savings_form[of savings_patterns u]
    extract_name_form[of u]
  from forms show "conversation_history (extract_financial_info u s) = conversation_history s"
    by (elim disjE exE) (simp_all add: extract_financial_info_def extract_expenses_def)
  from forms show "model_available (extract_financial_info u s) = model_available s"
    by (elim disjE exE) (simp_all add: extract_financial_info_def extract_expenses_def)
  from forms show "last_greeting_time (extract_financial_info u s) = last_greeting_time s"
    by (elim disjE exE) (simp_all add: extract_financial_info_def extract_expenses_def)
qed

lemma extract_financial_info_name:
  "user_name (extract_financial_info u s) = user_name (extract_name u s)"
proof -
  note forms = extract_income_form[of u] extract_savings_form[of savings_patterns u]
  from forms show ?thesis
    by (elim disjE exE)
       (simp_all add: extract_financial_info_def extract_expenses_def extract_name_def
          no_name_def split: option.splits)
qed

lemma get_ai_response_local:
  "\<not> model_available s \<Longrightarrow> get_ai_response remote rnd u s = fallback rnd u s"
  by (simp add: get_ai_response_def)

subsection \<open>The length of the history\<close>

lemma append_turn_model:
  "model_available (append_turn r c s) = model_available s"
  by (simp add: append_turn_def)

lemma get_ai_response_model:
  "model_available (snd (get_ai_response remote rnd u s)) = model_available s"
  by (cases remote)
     (simp_all add: get_ai_response_def fallback_fields prune_append_fields
        extract_financial_info_history append_turn_model Let_def)

lemma get_ai_response_remote_length:
  assumes "model_available s" "length (conversation_history s) \<le> 11"
  shows "length (conversation_history (snd (get_ai_response remote rnd u s))) \<le> 11"
proof (cases "rename_attempt remote_names u \<or> identity_query u")
  case True
  with assms show ?thesis by (auto simp: get_ai_response_def)
next
  case False
  let ?s1 = "prune_history (append_turn User u s)"
  have l: "length (conversation_history ?s1) \<le> 10" by (rule prune_history_length)
  show ?thesis
  proof (cases remote)
    case None
    with False assms(1) have "get_ai_response remote rnd u s = fallback (\<lambda>i. rnd (Suc i)) u ?s1"
      by (simp add: get_ai_response_def)
    with l show ?thesis
      by (simp add: fallback_history split: sum.splits)
  next
    case (Some answer)
    with False assms(1) have "get_ai_response remote rnd u s =
        (Inr answer, extract_financial_info u (append_turn Assistant answer ?s1))"
      by (simp add: get_ai_response_def)
    with l show ?thesis
      by (simp add: extract_financial_info_history append_turn_def)
  qed
qed

lemma get_ai_response_remote_history:
  assumes "model_available s" "\<not> rename_attempt remote_names u" "\<not> identity_query u"
  shows "\<exists>tail. conversation_history (snd (get_ai_response remote rnd u s)) =
           conversation_history (prune_history (append_turn User u s)) @ tail \<and> length tail \<le> 1"
proof (cases remote)
  case None
  with assms have "get_ai_response remote rnd u s =
      fallback (\<lambda>i. rnd (Suc i)) u (prune_history (append_turn User u s))"
    by (simp add: get_ai_response_def)
  then show ?thesis
    by (simp add: fallback_history split: sum.splits)
next
  case (Some answer)
  with assms have "get_ai_response remote rnd u s =
      (Inr answer, extract_financial_info u
         (append_turn Assistant answer (prune_history (append_turn User u s))))"
    by (simp add: get_ai_response_def)
  then show ?thesis
    by (simp add: extract_financial_info_history append_turn_def)
qed

lemma process_input_as_get_ai_response:
  "\<exists>s'. process_input remote rnd u s = get_ai_response remote rnd u s' \<and>
        conversation_history s' = conversation_history s \<and>
        model_available s' = model_available s"
  by (auto simp: process_input_def split: option.splits)

lemma handle_greeting_history:
  "conversation_history (snd (handle_greeting now r u s)) = conversation_history s"
  "model_available (snd (handle_greeting now r u s)) = model_available s"
  by (simp_all add: handle_greeting_def)

lemma reachable_remote_bound:
  "reachable s \<Longrightarrow> model_available s \<Longrightarrow> length (conversation_history s) \<le> 11"
proof (induction rule: reachable.induct)
  case (at_start m)
  then show ?case by (simp add: init_def)
next
  case (after_ask s remote rnd u)
  from after_ask.prems have m: "model_available s" by (simp add: get_ai_response_model)
  from get_ai_response_remote_length[OF m after_ask.IH[OF m]] show ?case .
next
  case (after_process_input s remote rnd u)
  from process_input_as_get_ai_response[of remote rnd u s] obtain s'
    where s': "process_input remote rnd u s = get_ai_response remote rnd u s'"
      "conversation_history s' = conversation_history s" "model_available s' = model_available s"
    by blast
  from after_process_input.prems s' have m: "model_available s"
    by (simp add: get_ai_response_model)
  with s' after_process_input.IH have "model_available s'" "length (conversation_history s') \<le> 11"
    by simp_all
  from get_ai_response_remote_length[OF this] s'(1) show ?case by simp
next
  case (after_greeting s now r u)
  then show ?case by (simp add: handle_greeting_history)
next
  case (after_extraction s u)
  then show ?case by (simp add: extract_financial_info_history)
next
  case (after_local_reply s rnd u)
  then show ?case by (simp add: gcr_fields)
qed

lemma reachable_ask_times: "reachable s \<Longrightarrow> reachable (ask_times k u s)"
  by (induction k arbitrary: s) (auto intro: reachable.after_ask)

subsection \<open>The user's name\<close>

lemma lang_Plus_Atom_nonempty: "w \<in> lang (Plus (Atom a)) \<Longrightarrow> w \<noteq> []"
  by (auto simp: Plus_def)

lemma capitalize_nonempty: "w \<noteq> [] \<Longrightarrow> capitalize w \<noteq> []"
  by (cases w) simp_all

lemma user_name_patterns_all:
  "(\<forall>p \<in> set user_name_patterns. P p) \<longleftrightarrow>
   P (user_name_patterns ! 0) \<and> P (user_name_patterns ! 1) \<and> P (user_name_patterns ! 2)"
  by (simp add: user_name_patterns_def)

lemma name_group_nonempty:
  assumes "list_all flat rs" "group_bodies rs = [Plus (Atom Alpha)]"
    "re_search (seqs rs) u = Some m"
  shows "capitalize (group (fst m) 1) \<noteq> []"
proof -
  from re_search_rmatch[OF assms(3)] obtain n s0 where "m \<in> set (rmatch n (seqs rs) ([], s0))"
    by blast
  from rmatch_seqs_groups[OF assms(1) this] assms(2)
  obtain w where "fst m = [w]" "w \<in> lang (Plus (Atom Alpha))"
    by (auto simp: list_all2_Cons2)
  with lang_Plus_Atom_nonempty[of w Alpha] show ?thesis
    by (simp add: group_def capitalize_nonempty)
qed

lemma user_name_match_nonempty:
  "\<forall>p \<in> set user_name_patterns. \<forall>m. re_search p u = Some m \<longrightarrow>
     capitalize (group (fst m) 1) \<noteq> []"
  unfolding user_name_patterns_all
proof (intro conjI allI impI)
  fix m assume "re_search (user_name_patterns ! 0) u = Some m"
  then show "capitalize (group (fst m) 1) \<noteq> []"
    by (intro name_group_nonempty[where rs = "[alts [ilit ''my name is'', ilit ''I am'',
          ilit ''I'm''], Atom (ICh CHR '' ''), Group (Plus (Atom Alpha))]"])
       (simp_all add: user_name_patterns_def flat_no_groups flat_Group no_groups_alts)
next
  fix m assume "re_search (user_name_patterns ! 1) u = Some m"
  then show "capitalize (group (fst m) 1) \<noteq> []"
    by (intro name_group_nonempty[where rs = "[ilit ''call me'', Atom (ICh CHR '' ''),
          Group (Plus (Atom Alpha))]"])
       (simp_all add: user_name_patterns_def flat_no_groups flat_Group)
next
  fix m assume "re_search (user_name_patterns ! 2) u = Some m"
  then show "capitalize (group (fst m) 1) \<noteq> []"
    by (intro name_group_nonempty[where rs = "[Bos, alts [ilit ''I'm'', ilit ''I am''],
          Atom (ICh CHR '' ''), Group (Plus (Atom Alpha))]"])
       (simp_all add: user_name_patterns_def flat_no_groups flat_Group no_groups_alts)
qed

lemma first_name_match_nonempty:
  "(\<forall>p \<in> set ps. \<forall>m. re_search p u = Some m \<longrightarrow> capitalize (group (fst m) 1) \<noteq> []) \<Longrightarrow>
   first_name_match ps u = Some nm \<Longrightarrow> nm \<noteq> []"
  by (induction ps) (auto split: option.splits)

lemma first_name_match_three:
  "first_name_match user_name_patterns u =
     (case re_search (user_name_patterns ! 0) u of
        Some m \<Rightarrow> Some (capitalize (group (fst m) 1))
      | None \<Rightarrow>
         (case re_search (user_name_patterns ! 1) u of
            Some m \<Rightarrow> Some (capitalize (group (fst m) 1))
          | None \<Rightarrow>
             (case re_search (user_name_patterns ! 2) u of
                Some m \<Rightarrow> Some (capitalize (group (fst m) 1))
              | None \<Rightarrow> None)))"
proof -
  have "user_name_patterns =
        [user_name_patterns ! 0, user_name_patterns ! 1, user_name_patterns ! 2]"
    by (simp add: user_name_patterns_def)
  then have "first_name_match user_name_patterns u =
     first_name_match [user_name_patterns ! 0, user_name_patterns ! 1, user_name_patterns ! 2] u"
    by simp
  then show ?thesis by (simp split: option.splits)
qed

lemma extract_keeps_name:
  "\<not> no_name s \<Longrightarrow> user_name (extract_financial_info u s) = user_name s"
  by (simp add: extract_financial_info_name extract_name_def)

lemma extract_sets_name:
  "no_name s \<Longrightarrow> user_name (extract_financial_info u s) =
     (case first_name_match user_name_patterns u of None \<Rightarrow> user_name s | Some nm \<Rightarrow> Some nm)"
  by (simp add: extract_financial_info_name extract_name_def split: option.splits)

lemma extract_new_name_nonempty:
  assumes "user_name (extract_financial_info u s) \<noteq> user_name s"
  shows "\<not> no_name (extract_financial_info u s)"
proof -
  from assms extract_keeps_name[of s u] have n: "no_name s" by blast
  with assms obtain nm where nm: "first_name_match user_name_patterns u = Some nm"
    "user_name (extract_financial_info u s) = Some nm"
    by (auto simp: extract_sets_name split: option.splits)
  from first_name_match_nonempty[OF user_name_match_nonempty nm(1)] nm(2)
  show ?thesis by (simp add: no_name_def)
qed

lemma get_ai_response_keeps_name:
  assumes "\<not> no_name s"
  shows "user_name (snd (get_ai_response remote rnd u s)) = user_name s"
proof -
  have un: "user_name (append_turn Assistant a (prune_history (append_turn User u s))) =
            user_name s" for a
    by (simp add: append_turn_def[of Assistant] prune_append_fields)
  with assms
  have n: "\<not> no_name (append_turn Assistant a (prune_history (append_turn User u s)))" for a
    by (simp add: no_name_def)
  show ?thesis
    by (cases remote)
       (simp_all add: get_ai_response_def fallback_fields prune_append_fields Let_def
          extract_keeps_name[OF n] un)
qed

lemma process_input_keeps_name:
  "\<not> no_name s \<Longrightarrow> user_name (snd (process_input remote rnd u s)) = user_name s"
  by (simp add: process_input_def get_ai_response_keeps_name)

subsection \<open>Savings replies and expense replies\<close>

lemma savings_reply_not_expense_template:
  assumes "t \<in> set savings_goal_added" "t' \<in> set expense_added"
  shows "format t [(F_goal, g)] \<noteq> format t' args"
proof -
  have e: "format t' args = Inl KeyError \<or>
           (\<exists>r. format t' args = Inr (emoji_memo @ r)) \<or>
           (\<exists>r. format t' args = Inr (''Added: '' @ r))"
    using assms(2)
    by (auto simp: expense_added_def split: option.splits)
  have s: "(\<exists>r. format t [(F_goal, g)] = Inr (emoji_target @ r)) \<or>
           (\<exists>r. format t [(F_goal, g)] = Inr (''I've set'' @ r))"
    using assms(1) by (auto simp: savings_goal_added_def)
  from e s show ?thesis
    by (auto simp: emoji_memo_def emoji_target_def)
qed

subsection \<open>Trimming\<close>

lemma strip_decomp:
  "\<exists>pre post. s = pre @ strip s @ post \<and> list_all is_space pre \<and> list_all is_space post \<and>
     (strip s = [] \<or> \<not> is_space (hd (strip s)) \<and> \<not> is_space (last (strip s)))"
proof -
  define d where "d = dropWhile is_space s"
  define pre where "pre = takeWhile is_space s"
  define post where "post = rev (takeWhile is_space (rev d))"
  have s: "s = pre @ d" by (simp add: pre_def d_def)
  have st: "strip s = rev (dropWhile is_space (rev d))" by (simp add: strip_def d_def)
  have "strip s @ post = rev (takeWhile is_space (rev d) @ dropWhile is_space (rev d))"
    unfolding st post_def by (simp only: rev_append)
  then have d: "d = strip s @ post" by simp
  have p1: "list_all is_space pre"
    unfolding pre_def list_all_iff by (auto dest: set_takeWhileD)
  have p2: "list_all is_space post"
    unfolding post_def list_all_iff by (auto dest: set_takeWhileD)
  have e: "\<not> is_space (hd (strip s)) \<and> \<not> is_space (last (strip s))" if n: "strip s \<noteq> []"
  proof
    from n d have "d \<noteq> []" by auto
    then have "\<not> is_space (hd d)" unfolding d_def by (rule hd_dropWhile)
    moreover from n d have "hd d = hd (strip s)" by (metis hd_append2)
    ultimately show "\<not> is_space (hd (strip s))" by simp
    from n have m: "dropWhile is_space (rev d) \<noteq> []" by (simp add: st)
    then have "\<not> is_space (hd (dropWhile is_space (rev d)))" by (rule hd_dropWhile)
    moreover from m have "last (strip s) = hd (dropWhile is_space (rev d))"
      unfolding st by (simp add: last_rev)
    ultimately show "\<not> is_space (last (strip s))" by simp
  qed
  from s d p1 p2 e show ?thesis by blast
qed

lemma category_of_trimmed:
  "\<exists>pre mid post. group gs 2 = pre @ mid @ post \<and>
     list_all is_space pre \<and> list_all is_space post \<and>
     (mid = [] \<or> \<not> is_space (hd mid) \<and> \<not> is_space (last mid)) \<and>
     category_of gs = map lower_char mid"
  using strip_decomp[of "group gs 2"] unfolding category_of_def lower_def by blast

subsection \<open>The name that \<^verbatim>\<open>process_input\<close> reads\<close>

lemma title_nonempty: "w \<noteq> [] \<Longrightarrow> title w \<noteq> []"
  by (cases w) (simp_all add: title_def)

lemma my_name_group_nonempty:
  assumes "re_search my_name_is_pattern t = Some m"
  shows "group (fst m) 1 \<noteq> []"
proof -
  from re_search_rmatch[OF assms] obtain n s0
    where "m \<in> set (rmatch n (seqs [lit ''my name is '', Group (Plus (Atom Word))]) ([], s0))"
    unfolding my_name_is_pattern_def by blast
  from rmatch_seqs_groups[OF _ this]
  obtain w where "fst m = [w]" "w \<in> lang (Plus (Atom Word))"
    by (auto simp: list_all2_Cons2 flat_no_groups flat_Group no_groups_lit)
  with lang_Plus_Atom_nonempty[of w Word] show ?thesis
    by (simp add: group_def)
qed

lemma extract_name_only_reads_name:
  assumes "user_name s' = user_name s"
  shows "user_name (extract_financial_info u s') = user_name (extract_financial_info u s)"
proof (cases "no_name s")
  case True
  with assms have "no_name s'" by (simp add: no_name_def)
  with True assms show ?thesis by (simp add: extract_sets_name split: option.splits)
next
  case False
  with assms have "\<not> no_name s'" by (simp add: no_name_def)
  with False assms show ?thesis by (simp add: extract_keeps_name)
qed

lemma get_ai_response_name:
  "user_name (snd (get_ai_response remote rnd u s)) =
     (if model_available s \<and> \<not> rename_attempt remote_names u \<and> \<not> identity_query u \<and>
         remote \<noteq> None
      then user_name (extract_financial_info u s) else user_name s)"
proof -
  have un: "user_name (append_turn Assistant a (prune_history (append_turn User u s))) =
            user_name s" for a
    by (simp add: append_turn_def[of Assistant] prune_append_fields)
  show ?thesis
    by (cases remote)
       (simp_all add: get_ai_response_def fallback_fields prune_append_fields Let_def
          extract_name_only_reads_name[OF un])
qed

lemma process_input_sets_name:
  assumes "no_name s" "re_search my_name_is_pattern (lower u) = Some m"
  shows "title (group (fst m) 1) \<noteq> []"
    and "user_name (snd (process_input remote rnd u s)) = Some (title (group (fst m) 1))"
proof -
  show n: "title (group (fst m) 1) \<noteq> []"
    by (rule title_nonempty, rule my_name_group_nonempty, rule assms(2))
  then have "\<not> no_name (s\<lparr>user_name := Some (title (group (fst m) 1))\<rparr>)"
    by (simp add: no_name_def)
  from get_ai_response_keeps_name[OF this, of remote rnd u] assms
  show "user_name (snd (process_input remote rnd u s)) = Some (title (group (fst m) 1))"
    by (simp add: process_input_def)
qed

lemma process_input_without_my_name:
  "no_name s \<Longrightarrow> re_search my_name_is_pattern (lower u) = None \<Longrightarrow>
   process_input remote rnd u s = get_ai_response remote rnd u s"
  by (simp add: process_input_def)

subsection \<open>Calls without a remote model\<close>

lemma ok_text_local_reply:
  assumes "income s = None"
  shows "generate_contextual_response rnd ok_text s = (Inr (general_reply rnd s), s)"
proof -
  have r: "\<not> rename_attempt local_names ok_text" by code_simp
  have q: "\<not> identity_query ok_text" by code_simp
  have "re_search (savings_patterns ! 0) ok_text = None"
    "re_search (savings_patterns ! 1) ok_text = None" by code_simp+
  then have sv: "\<forall>p \<in> set savings_patterns. re_search p ok_text = None"
    unfolding savings_patterns_all by simp
  have x: "re_search expense_pattern ok_text = None" by code_simp
  from assms have i: "\<not> (income s \<noteq> None \<and> length (conversation_history s) < 3)" by simp
  from assms have a: "\<not> analysis_request ok_text s" by (simp add: analysis_request_def)
  from r q sv i x a show ?thesis by (rule gcr_general)
qed

lemma ok_text_local_call:
  assumes "\<not> model_available s" "income s = None"
  shows "\<not> model_available (snd (get_ai_response None rnd ok_text s))"
    and "income (snd (get_ai_response None rnd ok_text s)) = None"
    and "length (conversation_history (snd (get_ai_response None rnd ok_text s))) =
         Suc (length (conversation_history s))"
proof -
  from assms(1) have eq: "get_ai_response None rnd ok_text s = fallback rnd ok_text s"
    by (rule get_ai_response_local)
  have f: "fallback rnd ok_text s =
           (Inr (general_reply rnd s), append_turn Assistant (general_reply rnd s) s)"
    by (simp add: fallback_def ok_text_local_reply[OF assms(2)])
  from assms show "\<not> model_available (snd (get_ai_response None rnd ok_text s))"
    by (simp add: eq f append_turn_def)
  from assms show "income (snd (get_ai_response None rnd ok_text s)) = None"
    by (simp add: eq f append_turn_def)
  show "length (conversation_history (snd (get_ai_response None rnd ok_text s))) =
         Suc (length (conversation_history s))"
    by (simp add: eq f append_turn_def)
qed

lemma ask_times_length:
  "\<not> model_available s \<Longrightarrow> income s = None \<Longrightarrow>
   length (conversation_history (ask_times k ok_text s)) = length (conversation_history s) + k"
proof (induction k arbitrary: s)
  case 0
  then show ?case by simp
next
  case (Suc k)
  from Suc.IH[OF ok_text_local_call(1,2)[OF Suc.prems]] ok_text_local_call(3)[OF Suc.prems]
  show ?case by simp
qed

subsection \<open>The highest expense\<close>



subsection \<open>The characters of a formatted amount\<close>





subsection \<open>The advice\<close>




subsection \<open>The category text of an expense match\<close>

lemma star_atom_chars: "v \<in> star {[c] |c. atom_ok a c} \<Longrightarrow> list_all (atom_ok a) v"
  by (induction rule: star.induct) auto

lemma lang_Plus_Atom_chars:
  "w \<in> lang (Plus (Atom a)) \<Longrightarrow> w \<noteq> [] \<and> list_all (atom_ok a) w"
  by (auto simp: Plus_def dest: star_atom_chars)

lemma expense_category_chars:
  assumes "gs \<in> set (re_finditer expense_pattern text)"
  shows "group gs 2 \<noteq> [] \<and> list_all (\<lambda>c. is_alpha c \<or> is_space c) (group gs 2)"
proof -
  from re_finditer_rmatch[OF assms] obtain n s0 m
    where m: "m \<in> set (rmatch n expense_pattern ([], s0))" "gs = fst m" by blast
  from expense_groups[OF m(1)] m(2) obtain a c
    where "gs = [a, c]" "c \<in> lang (Plus (Atom AlphaSpace))" by auto
  with lang_Plus_Atom_chars[of c AlphaSpace] show ?thesis
    by (simp add: group_def list_all_iff)
qed

section \<open>The claims\<close>

text \<open>
  C1: what the code does on the local fallback path. Without a remote model
  \<^verbatim>\<open>get_ai_response\<close> calls the local responder and appends the assistant turn: it
  appends no user turn and never runs \<^verbatim>\<open>extract_financial_info\<close>, so the ledger, the
  income and the user's name stay as they were. When the remote call fails the user
  turn has been appended, but the extraction, which the source places after the remote
  call, is skipped as well. The claim asks for the user turn and the extraction before
  every fallback reply, as the remote path does them.
\<close>

theorem fallback_path_skips_user_turn_and_extraction:
  "(\<not> model_available s \<longrightarrow>
      expenses (snd (get_ai_response remote rnd u s)) = expenses s \<and>
      income (snd (get_ai_response remote rnd u s)) = income s \<and>
      user_name (snd (get_ai_response remote rnd u s)) = user_name s \<and>
      conversation_history (snd (get_ai_response remote rnd u s)) =
        (case fst (get_ai_response remote rnd u s) of
           Inl e \<Rightarrow> conversation_history s
         | Inr reply \<Rightarrow> conversation_history s @ [(Assistant, reply)])) \<and>
   (model_available s \<and> \<not> rename_attempt remote_names u \<and> \<not> identity_query u \<longrightarrow>
      expenses (snd (get_ai_response None rnd u s)) = expenses s \<and>
      income (snd (get_ai_response None rnd u s)) = income s \<and>
      user_name (snd (get_ai_response None rnd u s)) = user_name s)"
proof (intro conjI impI)
  assume "\<not> model_available s"
  then have eq: "get_ai_response remote rnd u s = fallback rnd u s"
    by (rule get_ai_response_local)
  show "expenses (snd (get_ai_response remote rnd u s)) = expenses s"
    "income (snd (get_ai_response remote rnd u s)) = income s"
    "user_name (snd (get_ai_response remote rnd u s)) = user_name s"
    by (simp_all add: eq fallback_fields)
  show "conversation_history (snd (get_ai_response remote rnd u s)) =
        (case fst (get_ai_response remote rnd u s) of
           Inl e \<Rightarrow> conversation_history s
         | Inr reply \<Rightarrow> conversation_history s @ [(Assistant, reply)])"
    unfolding eq by (rule fallback_history)
next
  assume a: "model_available s \<and> \<not> rename_attempt remote_names u \<and> \<not> identity_query u"
  then have eq: "get_ai_response None rnd u s =
      fallback (\<lambda>i. rnd (Suc i)) u (prune_history (append_turn User u s))"
    by (simp add: get_ai_response_def)
  show "expenses (snd (get_ai_response None rnd u s)) = expenses s"
    "income (snd (get_ai_response None rnd u s)) = income s"
    "user_name (snd (get_ai_response None rnd u s)) = user_name s"
    by (simp_all add: eq fallback_fields prune_append_fields)
qed

theorem fallback_path_witness:
  "fst (get_ai_response None (const_draws 0) expense_text (init False)) = Inr expense_ack \<and>
   expenses (snd (get_ai_response None (const_draws 0) expense_text (init False))) = [] \<and>
   conversation_history (snd (get_ai_response None (const_draws 0) expense_text (init False))) =
     [(Assistant, expense_ack)]"
proof -
  have f: "fst (get_ai_response None (const_draws 0) expense_text (init False)) = Inr expense_ack"
    by code_simp
  have m: "\<not> model_available (init False)" by (simp add: init_def)
  have hi: "conversation_history (init False) = []" by (simp add: init_def)
  note t = fallback_path_skips_user_turn_and_extraction[of "init False" None "const_draws 0"
      expense_text, THEN conjunct1, THEN mp, OF m]
  from t have "expenses (snd (get_ai_response None (const_draws 0) expense_text (init False)))
      = expenses (init False)" by (rule conjunct1)
  then have e: "expenses (snd (get_ai_response None (const_draws 0) expense_text (init False)))
      = []" by (simp add: init_def)
  from t have "conversation_history
       (snd (get_ai_response None (const_draws 0) expense_text (init False))) =
        (case fst (get_ai_response None (const_draws 0) expense_text (init False)) of
           Inl e \<Rightarrow> conversation_history (init False)
         | Inr reply \<Rightarrow> conversation_history (init False) @ [(Assistant, reply)])"
    by (elim conjE)
  then have h: "conversation_history
       (snd (get_ai_response None (const_draws 0) expense_text (init False))) =
       [(Assistant, expense_ack)]"
    unfolding f hi by simp
  from f e h show ?thesis by blast
qed

text \<open>
  C2, as amended: extraction processes every match of the expense pattern that
  \<^verbatim>\<open>re.finditer\<close> yields, not only the first; the category text of a match is the run
  of letters and white space after the preposition, so that an expense phrase which
  follows with nothing but letters and blanks in between belongs to the category of the
  match before it and is no match of its own. The amount of every match parses. The key
  of a match is its category text without the white space at its two ends, lower-cased.
  After the extraction the ledger holds, under the key of a match, exactly the parsed
  amount of that match (of the last match, when several matches have the same key); a
  key that was in the ledger before is overwritten, nothing is added up, and the entries
  under other keys stay as they were.
\<close>

theorem expense_extraction_sets_every_match:
  "let ms = re_finditer expense_pattern text;
       ledger = expenses (extract_financial_info text s)
   in (\<forall>gs \<in> set ms. amount_of gs 1 \<noteq> None) \<and>
      (\<forall>gs \<in> set ms.
         group gs 2 \<noteq> [] \<and> list_all (\<lambda>c. is_alpha c \<or> is_space c) (group gs 2)) \<and>
      (\<forall>gs \<in> set ms. \<exists>pre mid post.
         group gs 2 = pre @ mid @ post \<and> list_all is_space pre \<and> list_all is_space post \<and>
         (mid = [] \<or> \<not> is_space (hd mid) \<and> \<not> is_space (last mid)) \<and>
         category_of gs = map lower_char mid) \<and>
      (\<forall>i < length ms.
         (\<forall>j. i < j \<longrightarrow> j < length ms \<longrightarrow> category_of (ms ! j) \<noteq> category_of (ms ! i)) \<longrightarrow>
         dict_get ledger (category_of (ms ! i)) = amount_of (ms ! i) 1) \<and>
      (\<forall>k. k \<notin> category_of ` set ms \<longrightarrow> dict_get ledger k = dict_get (expenses s) k)"
proof -
  define ms where "ms = re_finditer expense_pattern text"
  have parse: "\<forall>gs \<in> set ms. amount_of gs 1 \<noteq> None"
    using expense_matches_parse[of _ "text"] by (auto simp: ms_def)
  have chars: "\<forall>gs \<in> set ms.
         group gs 2 \<noteq> [] \<and> list_all (\<lambda>c. is_alpha c \<or> is_space c) (group gs 2)"
    using expense_category_chars[of _ "text"] by (auto simp: ms_def)
  have trim: "\<forall>gs \<in> set ms. \<exists>pre mid post.
         group gs 2 = pre @ mid @ post \<and> list_all is_space pre \<and> list_all is_space post \<and>
         (mid = [] \<or> \<not> is_space (hd mid) \<and> \<not> is_space (last mid)) \<and>
         category_of gs = map lower_char mid"
    using category_of_trimmed by blast
  have last: "dict_get (fold record_expense ms (expenses s)) (category_of (ms ! i)) =
              amount_of (ms ! i) 1"
    if "i < length ms"
      "\<forall>j. i < j \<longrightarrow> j < length ms \<longrightarrow> category_of (ms ! j) \<noteq> category_of (ms ! i)" for i
  proof -
    from parse that(1) obtain a where a: "amount_of (ms ! i) 1 = Some a"
      by (metis nth_mem option.exhaust)
    from fold_record_last[OF that(1) that(2) a] a show ?thesis by simp
  qed
  have other: "dict_get (fold record_expense ms (expenses s)) k = dict_get (expenses s) k"
    if "k \<notin> category_of ` set ms" for k
    using that by (rule fold_record_other)
  from parse chars trim last other show ?thesis
    unfolding Let_def expenses_extract_financial_info ms_def[symmetric] by blast
qed

lemma two_expenses_matches:
  "re_finditer expense_pattern two_expenses_text = [[''1,200'', ''Rent  ''], [''300'', ''food'']]"
  by code_simp

theorem expense_extraction_witness:
  "dict_get (expenses (extract_financial_info two_expenses_text rent_recorded)) ''rent'' = Some 1200
   \<and> dict_get (expenses (extract_financial_info two_expenses_text rent_recorded)) ''food'' = Some 300
   \<and> dict_get (expenses rent_recorded) ''rent'' = Some 1000"
proof -
  define m0 where "m0 = [''1,200'', ''Rent  '']"
  define m1 where "m1 = [''300'', ''food'']"
  define ledger where "ledger = expenses (extract_financial_info two_expenses_text rent_recorded)"
  have c0: "category_of m0 = ''rent''" unfolding m0_def by code_simp
  have c1: "category_of m1 = ''food''" unfolding m1_def by code_simp
  have "amount_of m0 1 = Some 1200" unfolding m0_def by code_simp
  then have a0: "amount_of m0 (Suc 0) = Some 1200" by simp
  have "amount_of m1 1 = Some 300" unfolding m1_def by code_simp
  then have a1: "amount_of m1 (Suc 0) = Some 300" by simp
  have ms: "re_finditer expense_pattern two_expenses_text = [m0, m1]"
    unfolding m0_def m1_def by (rule two_expenses_matches)
  from expense_extraction_sets_every_match[of two_expenses_text rent_recorded]
  have *: "\<forall>i < length [m0, m1].
         (\<forall>j. i < j \<longrightarrow> j < length [m0, m1] \<longrightarrow>
              category_of ([m0, m1] ! j) \<noteq> category_of ([m0, m1] ! i)) \<longrightarrow>
         dict_get ledger (category_of ([m0, m1] ! i)) = amount_of ([m0, m1] ! i) 1"
    unfolding Let_def ms ledger_def by (rule conjunct1[OF conjunct2[OF conjunct2[OF conjunct2]]])
  have d0: "\<forall>j. 0 < j \<longrightarrow> j < length [m0, m1] \<longrightarrow>
              category_of ([m0, m1] ! j) \<noteq> category_of ([m0, m1] ! 0)"
  proof (intro allI impI)
    fix j :: nat assume "0 < j" "j < length [m0, m1]"
    then have "j = 1" by simp
    then show "category_of ([m0, m1] ! j) \<noteq> category_of ([m0, m1] ! 0)"
      by (simp add: c0 c1)
  qed
  have d1: "\<forall>j. 1 < j \<longrightarrow> j < length [m0, m1] \<longrightarrow>
              category_of ([m0, m1] ! j) \<noteq> category_of ([m0, m1] ! 1)"
    by simp
  have "0 < length [m0, m1]" by simp
  from *[THEN spec, THEN mp, OF this, THEN mp, OF d0]
  have r: "dict_get ledger ''rent'' = Some 1200" by (simp add: c0 a0)
  have "1 < length [m0, m1]" by simp
  from *[THEN spec, THEN mp, OF this, THEN mp, OF d1]
  have f: "dict_get ledger ''food'' = Some 300" by (simp add: c1 a1)
  have "dict_get (expenses rent_recorded) ''rent'' = Some 1000"
    by (simp add: rent_recorded_def dict_get_def)
  with r f show ?thesis by (simp add: ledger_def)
qed

theorem second_expense_phrase_swallowed_counterexample:
  "re_finditer expense_pattern ''spend 500 on food'' = [[''500'', ''food'']] \<and>
   re_finditer expense_pattern ''paid 300 for rent'' = [[''300'', ''rent'']] \<and>
   re_finditer expense_pattern joined_expenses_text = [[''500'', ''food and paid '']] \<and>
   expenses (extract_financial_info joined_expenses_text (init False)) =
     [(''food and paid'', 500)]"
proof -
  have a: "re_finditer expense_pattern ''spend 500 on food'' = [[''500'', ''food'']]"
    by code_simp
  have b: "re_finditer expense_pattern ''paid 300 for rent'' = [[''300'', ''rent'']]"
    by code_simp
  have c: "re_finditer expense_pattern joined_expenses_text = [[''500'', ''food and paid '']]"
    by code_simp
  have d: "expenses (extract_financial_info joined_expenses_text (init False)) =
     [(''food and paid'', 500)]"
    by code_simp
  from a b c d show ?thesis by blast
qed

text \<open>
  C3: what the code does for a greeting that follows an earlier one. The test is on
  the seconds field of the time difference, which starts again at 0 with every full
  day: the greeting is suppressed exactly when that field is at most 300. A greeting one
  day and 100 seconds after the last one therefore gets the filler and the time of the
  last greeting stays, where the claim promises a full greeting and a reset.
\<close>

theorem greeting_cooldown_compares_seconds_field:
  assumes "\<exists>g \<in> {''hi'', ''hello'', ''hey'', ''hola'', ''greetings''}. sublist g (lower u)"
    and "last_greeting_time s = Some t"
  shows "handle_greeting now r u s =
           (if 300 < ((now - t) div 1000000) mod 86400
            then (Some (random_choice r greeting_responses), s\<lparr>last_greeting_time := Some now\<rparr>)
            else (Some greeting_filler, s))"
  using assms unfolding greeting_token_iff[symmetric]
  by (simp add: handle_greeting_def timedelta_seconds_def)

theorem greeting_a_day_later_is_suppressed:
  "handle_greeting a_day_later 0 ''hello'' greeted_at_0 = (Some greeting_filler, greeted_at_0)"
proof -
  have "list_ex (\<lambda>greeting. str_in greeting (lower ''hello'')) greetings" by code_simp
  then have y: "\<exists>g \<in> {''hi'', ''hello'', ''hey'', ''hola'', ''greetings''}.
      sublist g (lower ''hello'')"
    by (simp only: greeting_token_iff)
  have l: "last_greeting_time greeted_at_0 = Some 0" by (simp add: greeted_at_0_def)
  have "\<not> 300 < ((a_day_later - 0) div 1000000) mod 86400" by (simp add: a_day_later_def)
  with greeting_cooldown_compares_seconds_field[OF y l, of a_day_later 0]
  show ?thesis by simp
qed

text \<open>
  C4, as amended: the user's name is set only while it is empty, and by one of two
  rules. \<^verbatim>\<open>process_input\<close> reads it first, by a rule of its own: a match of
  \<^verbatim>\<open>my name is (\w+)\<close> in the lower-cased utterance, the captured word (letters,
  digits and underscores) put in title case. Otherwise \<^verbatim>\<open>extract_financial_info\<close>,
  which \<^verbatim>\<open>get_ai_response\<close> runs after an answer of the remote model, sets it from the
  first name pattern that matches, the patterns tried in the order of the source list
  (\<^verbatim>\<open>my name is\<close> / \<^verbatim>\<open>I am\<close> / \<^verbatim>\<open>I'm\<close>, then \<^verbatim>\<open>call me\<close>, then the anchored
  \<^verbatim>\<open>I'm\<close> / \<^verbatim>\<open>I am\<close>) and the captured word capitalized. Once the name is not empty,
  \<^verbatim>\<open>extract_financial_info\<close>, \<^verbatim>\<open>get_ai_response\<close> and \<^verbatim>\<open>process_input\<close> leave it
  unchanged; a name that either rule has set is not empty, so that nothing overwrites it
  later.
\<close>

theorem user_name_set_once:
  "(no_name s \<longrightarrow>
      user_name (extract_financial_info u s) =
        (case re_search (user_name_patterns ! 0) u of
           Some m \<Rightarrow> Some (capitalize (group (fst m) 1))
         | None \<Rightarrow>
            (case re_search (user_name_patterns ! 1) u of
               Some m \<Rightarrow> Some (capitalize (group (fst m) 1))
             | None \<Rightarrow>
                (case re_search (user_name_patterns ! 2) u of
                   Some m \<Rightarrow> Some (capitalize (group (fst m) 1))
                 | None \<Rightarrow> user_name s)))) \<and>
   (\<not> no_name s \<longrightarrow>
      user_name (extract_financial_info u s) = user_name s \<and>
      user_name (snd (get_ai_response remote rnd u s)) = user_name s \<and>
      user_name (snd (process_input remote rnd u s)) = user_name s) \<and>
   (user_name (extract_financial_info u s) \<noteq> user_name s \<longrightarrow>
      \<not> no_name (extract_financial_info u s) \<and>
      user_name (extract_financial_info u' (extract_financial_info u s)) =
        user_name (extract_financial_info u s)) \<and>
   (no_name s \<and> re_search my_name_is_pattern (lower u) = Some m \<longrightarrow>
      title (group (fst m) 1) \<noteq> [] \<and>
      user_name (snd (process_input remote rnd u s)) = Some (title (group (fst m) 1))) \<and>
   (no_name s \<and> re_search my_name_is_pattern (lower u) = None \<longrightarrow>
      process_input remote rnd u s = get_ai_response remote rnd u s) \<and>
   user_name (snd (get_ai_response remote rnd u s)) =
     (if model_available s \<and> \<not> rename_attempt remote_names u \<and> \<not> identity_query u \<and>
         remote \<noteq> None
      then user_name (extract_financial_info u s) else user_name s)"
proof (intro conjI impI; (elim conjE)?)
  assume "no_name s"
  then show "user_name (extract_financial_info u s) =
        (case re_search (user_name_patterns ! 0) u of
           Some m \<Rightarrow> Some (capitalize (group (fst m) 1))
         | None \<Rightarrow>
            (case re_search (user_name_patterns ! 1) u of
               Some m \<Rightarrow> Some (capitalize (group (fst m) 1))
             | None \<Rightarrow>
                (case re_search (user_name_patterns ! 2) u of
                   Some m \<Rightarrow> Some (capitalize (group (fst m) 1))
                 | None \<Rightarrow> user_name s)))"
    by (simp add: extract_sets_name first_name_match_three split: option.splits)
next
  assume n: "\<not> no_name s"
  from n show "user_name (extract_financial_info u s) = user_name s"
    by (rule extract_keeps_name)
  from n show "user_name (snd (get_ai_response remote rnd u s)) = user_name s"
    by (rule get_ai_response_keeps_name)
  from n show "user_name (snd (process_input remote rnd u s)) = user_name s"
    by (rule process_input_keeps_name)
next
  assume c: "user_name (extract_financial_info u s) \<noteq> user_name s"
  then show n: "\<not> no_name (extract_financial_info u s)"
    by (rule extract_new_name_nonempty)
  then show "user_name (extract_financial_info u' (extract_financial_info u s)) =
        user_name (extract_financial_info u s)"
    by (rule extract_keeps_name)
next
  assume a: "no_name s" "re_search my_name_is_pattern (lower u) = Some m"
  from a show "title (group (fst m) 1) \<noteq> []"
    by (rule process_input_sets_name(1))
  from a show "user_name (snd (process_input remote rnd u s)) = Some (title (group (fst m) 1))"
    by (rule process_input_sets_name(2))
next
  assume "no_name s" "re_search my_name_is_pattern (lower u) = None"
  then show "process_input remote rnd u s = get_ai_response remote rnd u s"
    by (rule process_input_without_my_name)
next
  show "user_name (snd (get_ai_response remote rnd u s)) =
     (if model_available s \<and> \<not> rename_attempt remote_names u \<and> \<not> identity_query u \<and>
         remote \<noteq> None
      then user_name (extract_financial_info u s) else user_name s)"
    by (rule get_ai_response_name)
qed

theorem user_name_set_once_witness:
  "user_name (extract_financial_info name_text (init False)) = Some ''Bob'' \<and>
   user_name (extract_financial_info other_name_text
                (extract_financial_info name_text (init False))) = Some ''Bob'' \<and>
   user_name (snd (process_input None (const_draws 0) my_name_text (init False))) =
     Some ''Carol_Ann'' \<and>
   first_name_match user_name_patterns my_name_text = Some ''Carol''"
proof -
  have n0: "no_name (init False)" by (simp add: no_name_def init_def)
  have m: "re_search (user_name_patterns ! 0) name_text = Some ([''bob''], [])" by code_simp
  have "capitalize (group [''bob''] 1) = ''Bob''" by code_simp
  then have c: "capitalize (group [''bob''] (Suc 0)) = ''Bob''" by simp
  note t1 = user_name_set_once[of "init False" name_text None "const_draws 0" other_name_text]
  from t1[THEN conjunct1, THEN mp, OF n0]
  have a: "user_name (extract_financial_info name_text (init False)) = Some ''Bob''"
    by (simp add: m c)
  have "user_name (init False) = None" by (simp add: init_def)
  with a have "user_name (extract_financial_info name_text (init False)) \<noteq> user_name (init False)"
    by simp
  from t1[THEN conjunct2, THEN conjunct2, THEN conjunct1, THEN mp, OF this] a
  have b: "user_name (extract_financial_info other_name_text
                (extract_financial_info name_text (init False))) = Some ''Bob''"
    by simp
  have pm: "re_search my_name_is_pattern (lower my_name_text) = Some ([''carol_ann''], [])"
    by code_simp
  have "title (group [''carol_ann''] 1) = ''Carol_Ann''" by code_simp
  then have ti: "title (group [''carol_ann''] (Suc 0)) = ''Carol_Ann''" by simp
  from user_name_set_once[of "init False" my_name_text None "const_draws 0" other_name_text
      "([''carol_ann''], [])",
      THEN conjunct2, THEN conjunct2, THEN conjunct2, THEN conjunct1, THEN mp, OF conjI,
      OF n0 pm]
  have p: "user_name (snd (process_input None (const_draws 0) my_name_text (init False))) =
     Some ''Carol_Ann''"
    by (simp add: ti)
  have f: "first_name_match user_name_patterns my_name_text = Some ''Carol''" by code_simp
  from a b p f show ?thesis by blast
qed

theorem process_input_names_by_its_own_rule_counterexample:
  "first_name_match user_name_patterns two_names_text = Some ''Al'' \<and>
   user_name (extract_financial_info two_names_text (init True)) = Some ''Al'' \<and>
   user_name (snd (process_input (Some ok_text) (const_draws 0) two_names_text (init True))) =
     Some ''Bob_Smith''"
proof -
  have a: "first_name_match user_name_patterns two_names_text = Some ''Al''" by code_simp
  have b: "user_name (extract_financial_info two_names_text (init True)) = Some ''Al''"
    by code_simp
  have c: "user_name (snd (process_input (Some ok_text) (const_draws 0) two_names_text
             (init True))) = Some ''Bob_Smith''"
    by code_simp
  from a b c show ?thesis by blast
qed




text \<open>
  C6: the bound on the history does not hold on every path that appends turns. With a
  remote model the history is cut to its last 5 turns exactly when it is longer than 10
  after the user turn was appended, at most one turn follows in the same call, and no
  reachable state has more than 11 turns. The branch without a remote model appends its
  turn and lacks the cut of the remote branch: \<open>k\<close> calls on a fresh chatbot lead to
  a reachable state with \<open>k\<close> turns, more than 11 from the twelfth call on.
\<close>

theorem history_pruned_only_with_remote_model:
  "(reachable s \<and> model_available s \<longrightarrow> length (conversation_history s) \<le> 11) \<and>
   (model_available s \<and> \<not> rename_attempt remote_names u \<and> \<not> identity_query u \<longrightarrow>
      (\<exists>tail. conversation_history (snd (get_ai_response remote rnd u s)) =
         (if 10 < length (conversation_history s @ [(User, u)])
          then drop (length (conversation_history s @ [(User, u)]) - 5)
                    (conversation_history s @ [(User, u)])
          else conversation_history s @ [(User, u)]) @ tail \<and> length tail \<le> 1)) \<and>
   reachable (ask_times k ok_text (init False)) \<and>
   \<not> model_available (init False) \<and>
   length (conversation_history (ask_times k ok_text (init False))) = k"
proof (intro conjI impI)
  assume "reachable s \<and> model_available s"
  then show "length (conversation_history s) \<le> 11"
    using reachable_remote_bound by blast
next
  assume "model_available s \<and> \<not> rename_attempt remote_names u \<and> \<not> identity_query u"
  then have a: "model_available s" "\<not> rename_attempt remote_names u" "\<not> identity_query u"
    by simp_all
  have "conversation_history (prune_history (append_turn User u s)) =
         (if 10 < length (conversation_history s @ [(User, u)])
          then drop (length (conversation_history s @ [(User, u)]) - 5)
                    (conversation_history s @ [(User, u)])
          else conversation_history s @ [(User, u)])"
    by (simp add: prune_history_def append_turn_def)
  with get_ai_response_remote_history[OF a, of remote rnd]
  show "\<exists>tail. conversation_history (snd (get_ai_response remote rnd u s)) =
         (if 10 < length (conversation_history s @ [(User, u)])
          then drop (length (conversation_history s @ [(User, u)]) - 5)
                    (conversation_history s @ [(User, u)])
          else conversation_history s @ [(User, u)]) @ tail \<and> length tail \<le> 1"
    by simp
next
  show "reachable (ask_times k ok_text (init False))"
    by (intro reachable_ask_times reachable.at_start)
next
  show "\<not> model_available (init False)" by (simp add: init_def)
next
  have "\<not> model_available (init False)" "income (init False) = None"
    by (simp_all add: init_def)
  from ask_times_length[OF this, of k]
  show "length (conversation_history (ask_times k ok_text (init False))) = k"
    by (simp add: init_def)
qed

theorem history_twelve_local_calls_witness:
  "reachable (snd (get_ai_response (Some ok_text) (const_draws 0) ok_text (init True))) \<and>
   length (conversation_history
     (snd (get_ai_response (Some ok_text) (const_draws 0) ok_text (init True)))) \<le> 11 \<and>
   reachable (ask_times 12 ok_text (init False)) \<and>
   \<not> length (conversation_history (ask_times 12 ok_text (init False))) \<le> 11"
proof -
  let ?s = "snd (get_ai_response (Some ok_text) (const_draws 0) ok_text (init True))"
  have r: "reachable ?s" by (intro reachable.after_ask reachable.at_start)
  have m: "model_available ?s" by (simp add: get_ai_response_model init_def)
  note t = history_pruned_only_with_remote_model[of ?s ok_text None "const_draws 0" 12]
  from t[THEN conjunct1] r m
  have b: "length (conversation_history ?s) \<le> 11" by blast
  from t[THEN conjunct2, THEN conjunct2]
  have l: "reachable (ask_times 12 ok_text (init False))"
    "length (conversation_history (ask_times 12 ok_text (init False))) = 12"
    by simp_all
  from r b l show ?thesis by simp
qed

text \<open>
  C7: the local responder tries its categories in the order rename attempt, identity
  query, savings goal, recent income, expense, budget analysis, default, and the first
  that applies decides the reply. In particular an utterance that reaches the savings
  test of this order (it is neither a rename attempt nor an identity query) and matches
  both a savings pattern and the expense pattern is answered from the savings-goal
  templates, bound with the parsed goal, and its reply is no rendering of an
  expense-recorded template.
\<close>

theorem local_responder_priority_order:
  "(rename_attempt local_names u \<longrightarrow>
      generate_contextual_response rnd u s = (Inr local_rename_reply, s)) \<and>
   (\<not> rename_attempt local_names u \<and> identity_query u \<longrightarrow>
      generate_contextual_response rnd u s = (Inr local_identity_reply, s)) \<and>
   (\<not> rename_attempt local_names u \<and> \<not> identity_query u \<and>
    (\<exists>p \<in> set savings_patterns. re_search p u \<noteq> None) \<longrightarrow>
      (\<exists>p \<in> set savings_patterns. \<exists>m g.
         re_search p u = Some m \<and> amount_of (fst m) 1 = Some g \<and>
         generate_contextual_response rnd u s =
           (format (random_choice (rnd 0) savings_goal_added) [(F_goal, fmt_comma_0f g)],
            s\<lparr>savings_goal := Some g\<rparr>))) \<and>
   (\<not> rename_attempt local_names u \<and> \<not> identity_query u \<and>
    (\<forall>p \<in> set savings_patterns. re_search p u = None) \<and>
    income s = Some inc \<and> length (conversation_history s) < 3 \<longrightarrow>
      generate_contextual_response rnd u s =
        (format (random_choice (rnd 0) income_added) [(F_income, fmt_comma_0f inc)], s)) \<and>
   (\<not> rename_attempt local_names u \<and> \<not> identity_query u \<and>
    (\<forall>p \<in> set savings_patterns. re_search p u = None) \<and>
    \<not> (income s \<noteq> None \<and> length (conversation_history s) < 3) \<and>
    re_search expense_pattern u = Some m \<longrightarrow>
      (\<exists>amount. amount_of (fst m) 1 = Some amount \<and>
         generate_contextual_response rnd u s =
           (format (random_choice (rnd 0) expense_added)
                   [(F_amount, fmt_comma_0f amount), (F_category, category_of (fst m)),
                    (F_total_expenses, fmt_comma_0f (sum_values (expenses s)))], s))) \<and>
   (\<not> rename_attempt local_names u \<and> \<not> identity_query u \<and>
    (\<forall>p \<in> set savings_patterns. re_search p u = None) \<and>
    \<not> (income s \<noteq> None \<and> length (conversation_history s) < 3) \<and>
    re_search expense_pattern u = None \<and> analysis_request u s \<longrightarrow>
      generate_contextual_response rnd u s = (analysis_reply rnd (the (income s)) s, s)) \<and>
   (\<not> rename_attempt local_names u \<and> \<not> identity_query u \<and>
    (\<forall>p \<in> set savings_patterns. re_search p u = None) \<and>
    \<not> (income s \<noteq> None \<and> length (conversation_history s) < 3) \<and>
    re_search expense_pattern u = None \<and> \<not> analysis_request u s \<longrightarrow>
      generate_contextual_response rnd u s = (Inr (general_reply rnd s), s)) \<and>
   (\<not> rename_attempt local_names u \<and> \<not> identity_query u \<and>
    (\<exists>p \<in> set savings_patterns. re_search p u \<noteq> None) \<and>
    re_search expense_pattern u \<noteq> None \<longrightarrow>
      (\<exists>t \<in> set savings_goal_added. \<exists>g.
         fst (generate_contextual_response rnd u s) = format t [(F_goal, fmt_comma_0f g)] \<and>
         (\<forall>t' \<in> set expense_added. \<forall>args.
            fst (generate_contextual_response rnd u s) \<noteq> format t' args)))"
proof (intro conjI impI; (elim conjE)?)
  assume "rename_attempt local_names u"
  then show "generate_contextual_response rnd u s = (Inr local_rename_reply, s)"
    by (rule gcr_rename)
next
  assume "\<not> rename_attempt local_names u" "identity_query u"
  then show "generate_contextual_response rnd u s = (Inr local_identity_reply, s)"
    by (rule gcr_identity)
next
  assume "\<not> rename_attempt local_names u" "\<not> identity_query u"
    "\<exists>p \<in> set savings_patterns. re_search p u \<noteq> None"
  then show "\<exists>p \<in> set savings_patterns. \<exists>m g.
         re_search p u = Some m \<and> amount_of (fst m) 1 = Some g \<and>
         generate_contextual_response rnd u s =
           (format (random_choice (rnd 0) savings_goal_added) [(F_goal, fmt_comma_0f g)],
            s\<lparr>savings_goal := Some g\<rparr>)"
    by (rule gcr_savings)
next
  assume "\<not> rename_attempt local_names u" "\<not> identity_query u"
    "\<forall>p \<in> set savings_patterns. re_search p u = None"
    "income s = Some inc" "length (conversation_history s) < 3"
  then show "generate_contextual_response rnd u s =
        (format (random_choice (rnd 0) income_added) [(F_income, fmt_comma_0f inc)], s)"
    by (rule gcr_income)
next
  assume "\<not> rename_attempt local_names u" "\<not> identity_query u"
    "\<forall>p \<in> set savings_patterns. re_search p u = None"
    "\<not> (income s \<noteq> None \<and> length (conversation_history s) < 3)"
    "re_search expense_pattern u = Some m"
  then show "\<exists>amount. amount_of (fst m) 1 = Some amount \<and>
         generate_contextual_response rnd u s =
           (format (random_choice (rnd 0) expense_added)
                   [(F_amount, fmt_comma_0f amount), (F_category, category_of (fst m)),
                    (F_total_expenses, fmt_comma_0f (sum_values (expenses s)))], s)"
    by (rule gcr_expense)
next
  assume "\<not> rename_attempt local_names u" "\<not> identity_query u"
    "\<forall>p \<in> set savings_patterns. re_search p u = None"
    "\<not> (income s \<noteq> None \<and> length (conversation_history s) < 3)"
    "re_search expense_pattern u = None" "analysis_request u s"
  then show "generate_contextual_response rnd u s = (analysis_reply rnd (the (income s)) s, s)"
    by (rule gcr_analysis)
next
  assume "\<not> rename_attempt local_names u" "\<not> identity_query u"
    "\<forall>p \<in> set savings_patterns. re_search p u = None"
    "\<not> (income s \<noteq> None \<and> length (conversation_history s) < 3)"
    "re_search expense_pattern u = None" "\<not> analysis_request u s"
  then show "generate_contextual_response rnd u s = (Inr (general_reply rnd s), s)"
    by (rule gcr_general)
next
  assume a: "\<not> rename_attempt local_names u" "\<not> identity_query u"
    "\<exists>p \<in> set savings_patterns. re_search p u \<noteq> None"
  from gcr_savings[OF a, of rnd s] obtain g
    where g: "fst (generate_contextual_response rnd u s) =
              format (random_choice (rnd 0) savings_goal_added) [(F_goal, fmt_comma_0f g)]"
    by auto
  have t: "random_choice (rnd 0) savings_goal_added \<in> set savings_goal_added"
    by (rule random_choice_in) (simp add: savings_goal_added_def)
  have "\<forall>t' \<in> set expense_added. \<forall>args.
          fst (generate_contextual_response rnd u s) \<noteq> format t' args"
    unfolding g using savings_reply_not_expense_template[OF t] by blast
  with g t show "\<exists>t \<in> set savings_goal_added. \<exists>g.
         fst (generate_contextual_response rnd u s) = format t [(F_goal, fmt_comma_0f g)] \<and>
         (\<forall>t' \<in> set expense_added. \<forall>args.
            fst (generate_contextual_response rnd u s) \<noteq> format t' args)"
    by blast
qed

theorem local_responder_priority_witness:
  "re_search expense_pattern savings_expense_text \<noteq> None \<and>
   generate_contextual_response (const_draws 0) savings_expense_text (init False) =
     (format (savings_goal_added ! 0) [(F_goal, ''5'')], (init False)\<lparr>savings_goal := Some 5\<rparr>)"
proof -
  have e: "re_search expense_pattern savings_expense_text \<noteq> None" by code_simp
  have r: "\<not> rename_attempt local_names savings_expense_text" by code_simp
  have i: "\<not> identity_query savings_expense_text" by code_simp
  have s0: "re_search (savings_patterns ! 0) savings_expense_text =
            Some ([''5''], '' spend 5 on y'')" by code_simp
  have s1: "re_search (savings_patterns ! 1) savings_expense_text = None" by code_simp
  have am: "amount_of [''5''] 1 = Some 5" by code_simp
  have f: "fmt_comma_0f 5 = ''5''" by code_simp
  have ch: "random_choice (const_draws 0 0) savings_goal_added = savings_goal_added ! 0"
    by code_simp
  from s0 have ex: "\<exists>p \<in> set savings_patterns. re_search p savings_expense_text \<noteq> None"
    unfolding savings_patterns_ex by simp
  from local_responder_priority_order[of savings_expense_text "const_draws 0" "init False"]
    r i ex
  obtain p m g where p: "p \<in> set savings_patterns"
    and m: "re_search p savings_expense_text = Some m" "amount_of (fst m) 1 = Some g"
    and g: "generate_contextual_response (const_draws 0) savings_expense_text (init False) =
           (format (random_choice (const_draws 0 0) savings_goal_added) [(F_goal, fmt_comma_0f g)],
            (init False)\<lparr>savings_goal := Some g\<rparr>)"
    by blast
  from p m(1) s0 s1 have "m = ([''5''], '' spend 5 on y'')"
    by (auto simp: savings_patterns_set)
  with m(2) am have "g = 5" by simp
  with g f ch e show ?thesis by simp
qed

text \<open>
  C8: entity extraction is idempotent. Running \<^verbatim>\<open>extract_financial_info\<close> twice on the
  same utterance from the fresh state of the constructor leaves exactly the state that
  one run leaves: name, income, savings goal, expense ledger and all other fields.
\<close>

theorem extraction_idempotent_on_fresh_state:
  "extract_financial_info text (extract_financial_info text (init m)) =
   extract_financial_info text (init m)"
  by (rule extract_financial_info_idem_distinct) (simp add: init_def)

text \<open>
  C9: the local responder never changes the expense ledger, nor the income, the user's
  name, the history or the time of the last greeting; a state that differs afterwards
  differs in the savings goal alone, set by the savings-goal branch before it renders.
  The total bound into an expense-recorded reply is the sum of the ledger as it stood
  before the utterance: the expense just stated is not in it.
\<close>

theorem local_responder_frame:
  "expenses (snd (generate_contextual_response rnd u s)) = expenses s \<and>
   income (snd (generate_contextual_response rnd u s)) = income s \<and>
   user_name (snd (generate_contextual_response rnd u s)) = user_name s \<and>
   conversation_history (snd (generate_contextual_response rnd u s)) = conversation_history s \<and>
   last_greeting_time (snd (generate_contextual_response rnd u s)) = last_greeting_time s \<and>
   model_available (snd (generate_contextual_response rnd u s)) = model_available s \<and>
   (snd (generate_contextual_response rnd u s) \<noteq> s \<longrightarrow>
      \<not> rename_attempt local_names u \<and> \<not> identity_query u \<and>
      (\<exists>p \<in> set savings_patterns. \<exists>m g.
         re_search p u = Some m \<and> amount_of (fst m) 1 = Some g \<and>
         generate_contextual_response rnd u s =
           (format (random_choice (rnd 0) savings_goal_added) [(F_goal, fmt_comma_0f g)],
            s\<lparr>savings_goal := Some g\<rparr>))) \<and>
   (\<not> rename_attempt local_names u \<and> \<not> identity_query u \<and>
    (\<forall>p \<in> set savings_patterns. re_search p u = None) \<and>
    \<not> (income s \<noteq> None \<and> length (conversation_history s) < 3) \<and>
    re_search expense_pattern u = Some m \<longrightarrow>
      (\<exists>amount. amount_of (fst m) 1 = Some amount \<and>
         generate_contextual_response rnd u s =
           (format (random_choice (rnd 0) expense_added)
                   [(F_amount, fmt_comma_0f amount), (F_category, category_of (fst m)),
                    (F_total_expenses, fmt_comma_0f (sum_values (expenses s)))], s)))"
proof -
  from generate_contextual_response_state[of rnd u s]
  have fields: "expenses (snd (generate_contextual_response rnd u s)) = expenses s"
    "income (snd (generate_contextual_response rnd u s)) = income s"
    "user_name (snd (generate_contextual_response rnd u s)) = user_name s"
    "conversation_history (snd (generate_contextual_response rnd u s)) = conversation_history s"
    "last_greeting_time (snd (generate_contextual_response rnd u s)) = last_greeting_time s"
    "model_available (snd (generate_contextual_response rnd u s)) = model_available s"
    by auto
  have changed: "snd (generate_contextual_response rnd u s) \<noteq> s \<longrightarrow>
      \<not> rename_attempt local_names u \<and> \<not> identity_query u \<and>
      (\<exists>p \<in> set savings_patterns. \<exists>m g.
         re_search p u = Some m \<and> amount_of (fst m) 1 = Some g \<and>
         generate_contextual_response rnd u s =
           (format (random_choice (rnd 0) savings_goal_added) [(F_goal, fmt_comma_0f g)],
            s\<lparr>savings_goal := Some g\<rparr>))"
  proof
    assume "snd (generate_contextual_response rnd u s) \<noteq> s"
    from gcr_changes_state[OF this] gcr_savings[of u rnd s]
    show "\<not> rename_attempt local_names u \<and> \<not> identity_query u \<and>
      (\<exists>p \<in> set savings_patterns. \<exists>m g.
         re_search p u = Some m \<and> amount_of (fst m) 1 = Some g \<and>
         generate_contextual_response rnd u s =
           (format (random_choice (rnd 0) savings_goal_added) [(F_goal, fmt_comma_0f g)],
            s\<lparr>savings_goal := Some g\<rparr>))"
      by simp
  qed
  have expense: "\<not> rename_attempt local_names u \<and> \<not> identity_query u \<and>
    (\<forall>p \<in> set savings_patterns. re_search p u = None) \<and>
    \<not> (income s \<noteq> None \<and> length (conversation_history s) < 3) \<and>
    re_search expense_pattern u = Some m \<longrightarrow>
      (\<exists>amount. amount_of (fst m) 1 = Some amount \<and>
         generate_contextual_response rnd u s =
           (format (random_choice (rnd 0) expense_added)
                   [(F_amount, fmt_comma_0f amount), (F_category, category_of (fst m)),
                    (F_total_expenses, fmt_comma_0f (sum_values (expenses s)))], s))"
    using gcr_expense[of u s m rnd] by (intro impI) (elim conjE, assumption)
  from fields changed expense show ?thesis by (intro conjI)
qed

theorem local_responder_frame_witness:
  "generate_contextual_response (const_draws 1) expense_text rent_recorded =
     (Inr (''Added: '' @ rupee @ ''5,000 for groceries. Your total expenses are now '' @ rupee
           @ ''1,000.''), rent_recorded)"
proof -
  have r: "\<not> rename_attempt local_names expense_text" by code_simp
  have i: "\<not> identity_query expense_text" by code_simp
  have "re_search (savings_patterns ! 0) expense_text = None"
    "re_search (savings_patterns ! 1) expense_text = None" by code_simp+
  then have sv: "\<forall>p \<in> set savings_patterns. re_search p expense_text = None"
    unfolding savings_patterns_all by simp
  have inc: "\<not> (income rent_recorded \<noteq> None \<and> length (conversation_history rent_recorded) < 3)"
    by (simp add: rent_recorded_def init_def)
  have m: "re_search expense_pattern expense_text = Some ([''5000'', ''groceries''], [])"
    by code_simp
  have am: "amount_of [''5000'', ''groceries''] 1 = Some 5000" by code_simp
  have cat: "category_of [''5000'', ''groceries''] = ''groceries''" by code_simp
  have tot: "fmt_comma_0f (sum_values (expenses rent_recorded)) = ''1,000''" by code_simp
  have f: "fmt_comma_0f 5000 = ''5,000''" by code_simp
  have fm: "format (random_choice (const_draws 1 0) expense_added)
      [(F_amount, ''5,000''), (F_category, ''groceries''), (F_total_expenses, ''1,000'')] =
      Inr (''Added: '' @ rupee @ ''5,000 for groceries. Your total expenses are now '' @ rupee
           @ ''1,000.'')"
    by code_simp
  have prem: "\<not> rename_attempt local_names expense_text \<and> \<not> identity_query expense_text \<and>
    (\<forall>p \<in> set savings_patterns. re_search p expense_text = None) \<and>
    \<not> (income rent_recorded \<noteq> None \<and> length (conversation_history rent_recorded) < 3) \<and>
    re_search expense_pattern expense_text = Some ([''5000'', ''groceries''], [])"
    using r i sv inc m by (intro conjI)
  note frame = local_responder_frame[of "const_draws 1" expense_text rent_recorded
      "([''5000'', ''groceries''], [])"]
  from frame[THEN conjunct2, THEN conjunct2, THEN conjunct2, THEN conjunct2, THEN conjunct2,
      THEN conjunct2, THEN conjunct2, THEN mp, OF prem]
  have g: "generate_contextual_response (const_draws 1) expense_text rent_recorded =
           (format (random_choice (const_draws 1 0) expense_added)
                   [(F_amount, fmt_comma_0f 5000),
                    (F_category, category_of [''5000'', ''groceries'']),
                    (F_total_expenses, fmt_comma_0f (sum_values (expenses rent_recorded)))],
            rent_recorded)"
    using am by auto
  with g cat tot f fm show ?thesis by simp
qed

text \<open>
  C10: greeting tokens are found by substring containment in the lower-cased utterance.
  When one of \<^verbatim>\<open>hi\<close>, \<^verbatim>\<open>hello\<close>, \<^verbatim>\<open>hey\<close>, \<^verbatim>\<open>hola\<close>, \<^verbatim>\<open>greetings\<close> occurs anywhere in
  it, also inside a longer word such as \<^verbatim>\<open>this\<close> or \<^verbatim>\<open>okhey\<close>, the handler replies with a
  greeting or with the cooldown filler; when none occurs it returns \<^verbatim>\<open>None\<close> and leaves
  the state, and with it the cooldown time, as it was.
\<close>

theorem greeting_detection_is_substring_containment:
  "((\<exists>g \<in> {''hi'', ''hello'', ''hey'', ''hola'', ''greetings''}. sublist g (lower u)) \<longrightarrow>
      (\<exists>reply. fst (handle_greeting now r u s) = Some reply \<and>
               (reply = greeting_filler \<or> reply \<in> set greeting_responses))) \<and>
   (\<not> (\<exists>g \<in> {''hi'', ''hello'', ''hey'', ''hola'', ''greetings''}. sublist g (lower u)) \<longrightarrow>
      handle_greeting now r u s = (None, s)) \<and>
   fst (handle_greeting now r ''this'' s) \<noteq> None \<and>
   fst (handle_greeting now r ''okhey'' s) \<noteq> None"
proof -
  have ne: "greeting_responses \<noteq> []" by (simp add: greeting_responses_def)
  have a: "(\<exists>g \<in> {''hi'', ''hello'', ''hey'', ''hola'', ''greetings''}. sublist g (lower u)) \<longrightarrow>
      (\<exists>reply. fst (handle_greeting now r u s) = Some reply \<and>
               (reply = greeting_filler \<or> reply \<in> set greeting_responses))"
    unfolding greeting_token_iff[symmetric] handle_greeting_def
    using random_choice_in[OF ne, of r] by simp
  have b: "\<not> (\<exists>g \<in> {''hi'', ''hello'', ''hey'', ''hola'', ''greetings''}. sublist g (lower u)) \<longrightarrow>
      handle_greeting now r u s = (None, s)"
    unfolding greeting_token_iff[symmetric] handle_greeting_def by simp
  have t1: "list_ex (\<lambda>greeting. str_in greeting (lower ''this'')) greetings" by code_simp
  have t2: "list_ex (\<lambda>greeting. str_in greeting (lower ''okhey'')) greetings" by code_simp
  from t1 have c: "fst (handle_greeting now r ''this'' s) \<noteq> None"
    by (simp add: handle_greeting_def)
  from t2 have d: "fst (handle_greeting now r ''okhey'' s) \<noteq> None"
    by (simp add: handle_greeting_def)
  from a b c d show ?thesis by blast
qed

theorem greeting_detection_witness:
  "(\<exists>reply. fst (handle_greeting 0 0 ''Oh, HEY you'' (init False)) = Some reply \<and>
            (reply = greeting_filler \<or> reply \<in> set greeting_responses)) \<and>
   handle_greeting 0 0 ''bye'' (init False) = (None, init False)"
proof -
  have "list_ex (\<lambda>greeting. str_in greeting (lower ''Oh, HEY you'')) greetings" by code_simp
  then have y: "\<exists>g \<in> {''hi'', ''hello'', ''hey'', ''hola'', ''greetings''}.
      sublist g (lower ''Oh, HEY you'')"
    by (simp only: greeting_token_iff)
  have "\<not> list_ex (\<lambda>greeting. str_in greeting (lower ''bye'')) greetings" by code_simp
  then have n: "\<not> (\<exists>g \<in> {''hi'', ''hello'', ''hey'', ''hola'', ''greetings''}.
      sublist g (lower ''bye''))"
    unfolding greeting_token_iff .
  from greeting_detection_is_substring_containment[of "''Oh, HEY you''" 0 0 "init False"] y
  have 1: "\<exists>reply. fst (handle_greeting 0 0 ''Oh, HEY you'' (init False)) = Some reply \<and>
            (reply = greeting_filler \<or> reply \<in> set greeting_responses)"
    by blast
  from greeting_detection_is_substring_containment[of "''bye''" 0 0 "init False"] n
  have 2: "handle_greeting 0 0 ''bye'' (init False) = (None, init False)"
    by blast
  from 1 2 show ?thesis by blast
qed

end
